theory Spec2Isabelle
  imports Complex_Main
begin

section \<open>Impact analyzer: cosine similarity\<close>

text \<open>
  \<^verbatim>\<open>cosineSimilarity(a: number[], b: number[])\<close> of the impact analyzer. Numbers are
  modelled as reals: rounding, overflow and NaN of IEEE doubles are outside the model.
  The \<^verbatim>\<open>for (let i = 0; i < a.length; i++)\<close> loop is the recursion \<open>cosine_loop\<close> on the
  index, carrying the three accumulators \<^verbatim>\<open>dot\<close>, \<^verbatim>\<open>normA\<close>, \<^verbatim>\<open>normB\<close>. The loop is entered
  only when both arrays have the same length, so \<^verbatim>\<open>b[i]\<close> is always in range.
\<close>

function cosine_loop :: "real list \<Rightarrow> real list \<Rightarrow> nat \<Rightarrow> real \<Rightarrow> real \<Rightarrow> real \<Rightarrow> real \<times> real \<times> real" where
  "cosine_loop a b i dot normA normB =
     (if i < length a
      then cosine_loop a b (Suc i) (dot + a ! i * b ! i) (normA + a ! i * a ! i) (normB + b ! i * b ! i)
      else (dot, normA, normB))"
  by pat_completeness auto
termination
  by (relation "measure (\<lambda>(a, b, i, dot, normA, normB). length a - i)") auto

declare cosine_loop.simps [simp del]

definition cosineSimilarity :: "real list \<Rightarrow> real list \<Rightarrow> real" where
  "cosineSimilarity a b =
     (if length a \<noteq> length b then 0
      else (case cosine_loop a b 0 0 0 0 of
              (dot, normA, normB) \<Rightarrow>
                (let denominator = sqrt normA * sqrt normB
                 in if denominator = 0 then 0 else dot / denominator)))"

text \<open>Closed forms the loop is compared with: the dot product and the sum of squares.\<close>

definition dot_product :: "real list \<Rightarrow> real list \<Rightarrow> real" where
  "dot_product a b = (\<Sum>k = 0..<length a. a ! k * b ! k)"

definition sum_squares :: "real list \<Rightarrow> real" where
  "sum_squares a = (\<Sum>k = 0..<length a. a ! k * a ! k)"

section \<open>Impact analyzer: embedding of a query text\<close>

text \<open>
  Everything the source throws is a value of \<open>error\<close>; a function that can throw returns
  \<open>error + 'a\<close> with \<open>Inl\<close> for the exception.
\<close>

datatype error =
    DbQueryFailed string
  | EmbeddingFailed
  | SpecNotFound string
  | TextGenerationFailed
  | CreateVersionFailed string
  | PublishFailed

text \<open>
  \<^verbatim>\<open>embedQuery(text)\<close> sanitises the text with
  \<^verbatim>\<open>text.replace(/\n+/g, ' ').trim()\<close> and sends it to the embeddings endpoint. The endpoint is
  the parameter \<open>embeddings_create\<close>; \<open>None\<close> stands for a rejected call (and for a response
  without a first embedding, where \<^verbatim>\<open>response.data[0].embedding\<close> throws). Characters are
  bytes here, so \<open>js_trim\<close> strips the ASCII white space of \<^verbatim>\<open>String.prototype.trim\<close> only.
\<close>

function replace_newline_runs :: "string \<Rightarrow> string" where
  "replace_newline_runs [] = []"
| "replace_newline_runs (c # cs) =
     (if c = CHR 0x0A
      then CHR '' '' # replace_newline_runs (dropWhile (\<lambda>d. d = CHR 0x0A) cs)
      else c # replace_newline_runs cs)"
  by pat_completeness auto
termination
  by (relation "measure length") (auto simp: length_dropWhile_le less_Suc_eq_le)

definition is_js_space :: "char \<Rightarrow> bool" where
  "is_js_space c \<longleftrightarrow> c \<in> set [CHR 0x09, CHR 0x0A, CHR 0x0B, CHR 0x0C, CHR 0x0D, CHR 0x20]"

definition js_trim :: "string \<Rightarrow> string" where
  "js_trim s = rev (dropWhile is_js_space (rev (dropWhile is_js_space s)))"

definition embedQuery :: "(string \<Rightarrow> real list option) \<Rightarrow> string \<Rightarrow> real list option" where
  "embedQuery embeddings_create text = embeddings_create (js_trim (replace_newline_runs text))"

section \<open>Impact analyzer: the summary text of a master specification\<close>

text \<open>
  The fields of the stored master specification that \<^verbatim>\<open>extractMasterSpecText\<close> reads. The
  payload is untyped JSON from the database, so every field may be absent (\<open>None\<close>), which
  is what \<^verbatim>\<open>??\<close> tests.
\<close>

record core_feature =
  feature_name :: string
  feature_description :: string

record data_flow =
  flow_from :: string
  flow_to :: string
  flow_dataType :: string

record master_spec =
  projectName :: "string option"
  projectSummary :: "string option"
  problemStatement :: "string option"
  coreFeatures :: "core_feature list option"
  dataFlows :: "data_flow list option"
  nonFunctionalRequirements :: "string list option"

definition nullish_or :: "'a option \<Rightarrow> 'a \<Rightarrow> 'a" where
  "nullish_or v d = (case v of None \<Rightarrow> d | Some x \<Rightarrow> x)"

fun join_with :: "string \<Rightarrow> string list \<Rightarrow> string" where
  "join_with sep [] = []"
| "join_with sep [p] = p"
| "join_with sep (p # q # ps) = p @ sep @ join_with sep (q # ps)"

text \<open>The arrow of the data-flow line is U+2192, three bytes in UTF-8.\<close>

definition arrow :: string where
  "arrow = [CHR 0xE2, CHR 0x86, CHR 0x92]"

definition extractMasterSpecText :: "master_spec option \<Rightarrow> string" where
  "extractMasterSpecText masterSpec =
     (case masterSpec of
        None \<Rightarrow> []
      | Some m \<Rightarrow>
          (let parts =
                 [nullish_or (projectName m) [], nullish_or (projectSummary m) [],
                  nullish_or (problemStatement m) []]
                 @ map (\<lambda>f. feature_name f @ '': '' @ feature_description f)
                     (nullish_or (coreFeatures m) [])
                 @ map (\<lambda>d. flow_from d @ '' '' @ arrow @ '' '' @ flow_to d @ '': '' @ flow_dataType d)
                     (nullish_or (dataFlows m) [])
                 @ nullish_or (nonFunctionalRequirements m) []
           in join_with [CHR 0x0A] (filter (\<lambda>p. p \<noteq> []) parts)))"

section \<open>Impact analyzer: finding the affected specifications\<close>

record candidate =
  spec_id :: string
  cand_workspace_id :: string
  cand_version_number :: int
  cand_frameworks :: "string list"
  cand_jurisdictions :: "string list"

record AffectedSpec =
  specId :: string
  as_workspaceId :: string
  as_versionNumber :: int
  as_frameworks :: "string list"
  as_jurisdictions :: "string list"
  semanticScore :: real

text \<open>
  The stored procedure \<^verbatim>\<open>find_affected_specs\<close> is reached through \<^verbatim>\<open>supabase.rpc\<close>, which
  answers with an error or with data that may be null.
\<close>

datatype rpc_result = RpcError string | RpcData "candidate list option"

definition SEMANTIC_THRESHOLD :: real where
  "SEMANTIC_THRESHOLD = 65 / 100"

definition affected :: "candidate \<Rightarrow> real \<Rightarrow> AffectedSpec" where
  "affected c score =
     \<lparr>specId = spec_id c, as_workspaceId = cand_workspace_id c,
      as_versionNumber = cand_version_number c, as_frameworks = cand_frameworks c,
      as_jurisdictions = cand_jurisdictions c, semanticScore = score\<rparr>"

text \<open>
  The \<^verbatim>\<open>for (const candidate of candidates)\<close> loop with its accumulator \<^verbatim>\<open>results\<close>.
  \<open>fetch_master\<close> is the single-row read of \<^verbatim>\<open>master_specification\<close>; it gives \<open>None\<close>
  when \<^verbatim>\<open>!spec?.master_specification\<close> holds (no row, a failed read, or a null column),
  and the loop continues. A rejected \<^verbatim>\<open>embedQuery\<close> is not caught in the loop.
\<close>

fun score_candidates ::
  "(string \<Rightarrow> master_spec option) \<Rightarrow> (string \<Rightarrow> real list option) \<Rightarrow> real list \<Rightarrow>
   candidate list \<Rightarrow> AffectedSpec list \<Rightarrow> error + AffectedSpec list" where
  "score_candidates fetch_master embeddings_create regulationEmbedding [] results = Inr results"
| "score_candidates fetch_master embeddings_create regulationEmbedding (c # cs) results =
     (case fetch_master (spec_id c) of
        None \<Rightarrow> score_candidates fetch_master embeddings_create regulationEmbedding cs results
      | Some m \<Rightarrow>
          (case embedQuery embeddings_create (extractMasterSpecText (Some m)) of
             None \<Rightarrow> Inl EmbeddingFailed
           | Some specEmbedding \<Rightarrow>
               (let similarity = cosineSimilarity regulationEmbedding specEmbedding
                in if similarity \<ge> SEMANTIC_THRESHOLD
                   then score_candidates fetch_master embeddings_create regulationEmbedding cs
                          (results @ [affected c similarity])
                   else score_candidates fetch_master embeddings_create regulationEmbedding cs
                          results)))"

text \<open>
  \<^verbatim>\<open>results.sort((a, b) => b.semanticScore - a.semanticScore)\<close>: the stable sort of the
  language, descending in the score, is the stable insertion sort on the negated score.
\<close>

definition sort_by_score :: "AffectedSpec list \<Rightarrow> AffectedSpec list" where
  "sort_by_score results = sort_key (\<lambda>r. - semanticScore r) results"

text \<open>
  \<^verbatim>\<open>regulationContent?: string\<close> is an optional string; \<^verbatim>\<open>!regulationContent\<close> holds when it
  is absent and also when it is the empty string.
\<close>

definition findAffectedSpecs ::
  "(string \<Rightarrow> string \<Rightarrow> rpc_result) \<Rightarrow> (string \<Rightarrow> master_spec option) \<Rightarrow>
   (string \<Rightarrow> real list option) \<Rightarrow> string \<Rightarrow> string \<Rightarrow> string option \<Rightarrow>
   error + AffectedSpec list" where
  "findAffectedSpecs find_affected_specs fetch_master embeddings_create framework jurisdiction
     regulationContent =
     (case find_affected_specs framework jurisdiction of
        RpcError message \<Rightarrow> Inl (DbQueryFailed message)
      | RpcData data \<Rightarrow>
          (case data of
             None \<Rightarrow> Inr []
           | Some candidates \<Rightarrow>
               if candidates = [] then Inr []
               else (case regulationContent of
                       None \<Rightarrow> Inr (map (\<lambda>c. affected c 1) candidates)
                     | Some content \<Rightarrow>
                         if content = [] then Inr (map (\<lambda>c. affected c 1) candidates)
                         else (case embedQuery embeddings_create content of
                                 None \<Rightarrow> Inl EmbeddingFailed
                               | Some regulationEmbedding \<Rightarrow>
                                   (case score_candidates fetch_master embeddings_create
                                           regulationEmbedding candidates [] of
                                      Inl e \<Rightarrow> Inl e
                                    | Inr results \<Rightarrow> Inr (sort_by_score results))))))"

text \<open>
  The score the loop computes for one candidate, when it computes one: \<open>None\<close> when the
  master specification cannot be read or its embedding fails.
\<close>

definition candidate_score ::
  "(string \<Rightarrow> master_spec option) \<Rightarrow> (string \<Rightarrow> real list option) \<Rightarrow> real list \<Rightarrow>
   candidate \<Rightarrow> real option" where
  "candidate_score fetch_master embeddings_create regulationEmbedding c =
     (case fetch_master (spec_id c) of
        None \<Rightarrow> None
      | Some m \<Rightarrow>
          (case embedQuery embeddings_create (extractMasterSpecText (Some m)) of
             None \<Rightarrow> None
           | Some specEmbedding \<Rightarrow> Some (cosineSimilarity regulationEmbedding specEmbedding)))"

definition stage1_candidates :: "rpc_result \<Rightarrow> candidate list" where
  "stage1_candidates r = (case r of RpcData (Some candidates) \<Rightarrow> candidates | _ \<Rightarrow> [])"

text \<open>
  What the loop keeps of one candidate: its entry with the computed score when the score
  reaches the threshold.
\<close>

definition retained ::
  "(string \<Rightarrow> master_spec option) \<Rightarrow> (string \<Rightarrow> real list option) \<Rightarrow> real list \<Rightarrow>
   candidate \<Rightarrow> AffectedSpec option" where
  "retained fetch_master embeddings_create regulationEmbedding c =
     (case candidate_score fetch_master embeddings_create regulationEmbedding c of
        None \<Rightarrow> None
      | Some s \<Rightarrow> if s \<ge> SEMANTIC_THRESHOLD then Some (affected c s) else None)"

section \<open>Specification versions, modules and clause diffs\<close>

text \<open>
  A module payload is untyped JSON (a \<^verbatim>\<open>JSONB\<close> column, or whatever \<^verbatim>\<open>JSON.parse\<close> returned).
  A null column and a JSON \<^verbatim>\<open>null\<close> are both \<open>JNull\<close>.
\<close>

datatype json =
    JNull
  | JBool bool
  | JNum real
  | JStr string
  | JArr "json list"
  | JObj "(string \<times> json) list"

text \<open>What \<^verbatim>\<open>!value\<close> tests: \<open>js_truthy v\<close> is the negation of \<^verbatim>\<open>!v\<close>.\<close>

fun js_truthy :: "json \<Rightarrow> bool" where
  "js_truthy JNull = False"
| "js_truthy (JBool b) = b"
| "js_truthy (JNum n) = (n \<noteq> 0)"
| "js_truthy (JStr s) = (s \<noteq> [])"
| "js_truthy (JArr xs) = True"
| "js_truthy (JObj fs) = True"

record modules =
  master_specification :: json
  security_blueprint :: json
  cost_analysis :: json
  tech_stack_justification :: json
  code_scaffolding :: json


definition module_at :: "modules \<Rightarrow> string \<Rightarrow> json option" where
  "module_at ms key =
     (if key = ''master_specification'' then Some (master_specification ms)
      else if key = ''security_blueprint'' then Some (security_blueprint ms)
      else if key = ''cost_analysis'' then Some (cost_analysis ms)
      else if key = ''tech_stack_justification'' then Some (tech_stack_justification ms)
      else if key = ''code_scaffolding'' then Some (code_scaffolding ms)
      else None)"

text \<open>
  \<^verbatim>\<open>(updatedModules as any)[key] = value\<close>, for the keys the record has. The assignment is
  reached only for a key whose current module is truthy, hence one of the five.
\<close>

definition set_module :: "modules \<Rightarrow> string \<Rightarrow> json \<Rightarrow> modules" where
  "set_module ms key v =
     (if key = ''master_specification'' then ms\<lparr>master_specification := v\<rparr>
      else if key = ''security_blueprint'' then ms\<lparr>security_blueprint := v\<rparr>
      else if key = ''cost_analysis'' then ms\<lparr>cost_analysis := v\<rparr>
      else if key = ''tech_stack_justification'' then ms\<lparr>tech_stack_justification := v\<rparr>
      else if key = ''code_scaffolding'' then ms\<lparr>code_scaffolding := v\<rparr>
      else ms)"

datatype SpecStatus = Draft | Active | Superseded | Archived

record SpecVersion =
  sv_id :: string
  workspaceId :: string
  parentId :: "string option"
  versionNumber :: int
  versionLabel :: "string option"
  sv_status :: SpecStatus
  changeReason :: string
  triggeredBy :: string
  sv_regulationTrigger :: "string option"
  sv_jurisdictions :: "string list"
  sv_frameworks :: "string list"
  sv_modules :: modules
  createdBy :: "string option"

record ClauseDiff =
  diff_module :: string
  clausePath :: string
  fieldLabel :: string
  before :: string
  after :: string
  reason :: string
  regulationTrigger :: string
  severity :: string

record regulation =
  reg_id :: string
  reg_framework :: string
  reg_article :: string
  reg_title :: string
  reg_content :: string
  reg_jurisdiction :: string
  reg_severity :: string

section \<open>Diff engine\<close>

text \<open>
  One call of the text generator, seen from the code that consumes it:
  \<^item> \<open>CallRejected\<close>: \<^verbatim>\<open>client.messages.create\<close> rejects; no function of the diff engine
    catches that;
  \<^item> \<open>NotText\<close>: the first content block is not a text block, so the code continues with its
    literal default (\<^verbatim>\<open>'[]'\<close> for the two list-valued calls, \<^verbatim>\<open>''\<close> when applying diffs);
  \<^item> \<open>Unparsable\<close>: a text block for which the \<^verbatim>\<open>try\<close> block throws: \<^verbatim>\<open>JSON.parse\<close> of the
    text stripped of its code fence fails (or, for the diff list, the parsed value has no
    \<^verbatim>\<open>map\<close>);
  \<^item> \<open>Parsed v\<close>: a text block that parses to \<open>v\<close>.
  The parsed value has the type the source casts it to, except that a module key is any
  string. The reply is a function of the values the prompt is built from.
\<close>

datatype 'a reply = CallRejected | NotText | Unparsable | Parsed 'a

definition detectAffectedModules ::
  "(regulation \<Rightarrow> SpecVersion \<Rightarrow> string list reply) \<Rightarrow> regulation \<Rightarrow> SpecVersion \<Rightarrow>
   error + string list" where
  "detectAffectedModules classify reg spec =
     (case classify reg spec of
        CallRejected \<Rightarrow> Inl TextGenerationFailed
      | NotText \<Rightarrow> Inr []
      | Unparsable \<Rightarrow> Inr [''master_specification'', ''security_blueprint'']
      | Parsed keys \<Rightarrow> Inr keys)"

definition regulation_ref :: "regulation \<Rightarrow> string" where
  "regulation_ref reg = reg_framework reg @ '' '' @ reg_article reg"

definition stamp :: "string \<Rightarrow> regulation \<Rightarrow> ClauseDiff \<Rightarrow> ClauseDiff" where
  "stamp moduleKey reg d = d\<lparr>diff_module := moduleKey, regulationTrigger := regulation_ref reg\<rparr>"

definition generateModuleDiffs ::
  "(regulation \<Rightarrow> string \<Rightarrow> json \<Rightarrow> ClauseDiff list reply) \<Rightarrow> regulation \<Rightarrow> string \<Rightarrow> json \<Rightarrow>
   error + ClauseDiff list" where
  "generateModuleDiffs propose reg moduleKey currentModuleData =
     (case propose reg moduleKey currentModuleData of
        CallRejected \<Rightarrow> Inl TextGenerationFailed
      | NotText \<Rightarrow> Inr []
      | Unparsable \<Rightarrow> Inr []
      | Parsed proposed \<Rightarrow> Inr (map (stamp moduleKey reg) proposed))"

text \<open>
  \<^verbatim>\<open>diffsByModule\<close> is an object filled in the order of the diffs; it is an association
  list here, a key being appended at its first diff.
\<close>

definition push_diff ::
  "(string \<times> ClauseDiff list) list \<Rightarrow> ClauseDiff \<Rightarrow> (string \<times> ClauseDiff list) list" where
  "push_diff diffsByModule d =
     (if diff_module d \<in> set (map fst diffsByModule)
      then map (\<lambda>(k, ds). if k = diff_module d then (k, ds @ [d]) else (k, ds)) diffsByModule
      else diffsByModule @ [(diff_module d, [d])])"

fun group_diffs ::
  "ClauseDiff list \<Rightarrow> (string \<times> ClauseDiff list) list \<Rightarrow> (string \<times> ClauseDiff list) list" where
  "group_diffs [] diffsByModule = diffsByModule"
| "group_diffs (d # ds) diffsByModule = group_diffs ds (push_diff diffsByModule d)"

text \<open>
  The loop over \<^verbatim>\<open>Object.entries(diffsByModule)\<close>. The current module is read from the
  specification given to the function, the result is written to the copy \<^verbatim>\<open>updatedModules\<close>.
\<close>

fun apply_entries ::
  "(string \<Rightarrow> json \<Rightarrow> ClauseDiff list \<Rightarrow> json reply) \<Rightarrow> modules \<Rightarrow>
   (string \<times> ClauseDiff list) list \<Rightarrow> modules \<Rightarrow> error + modules" where
  "apply_entries rewrite current [] updatedModules = Inr updatedModules"
| "apply_entries rewrite current ((key, moduleDiffs) # rest) updatedModules =
     (case module_at current key of
        None \<Rightarrow> apply_entries rewrite current rest updatedModules
      | Some currentModule \<Rightarrow>
          if \<not> js_truthy currentModule \<or> moduleDiffs = []
          then apply_entries rewrite current rest updatedModules
          else (case rewrite key currentModule moduleDiffs of
                  CallRejected \<Rightarrow> Inl TextGenerationFailed
                | NotText \<Rightarrow> apply_entries rewrite current rest updatedModules
                | Unparsable \<Rightarrow> apply_entries rewrite current rest updatedModules
                | Parsed v \<Rightarrow> apply_entries rewrite current rest (set_module updatedModules key v)))"

definition applyDiffsToSpec ::
  "(string \<Rightarrow> json \<Rightarrow> ClauseDiff list \<Rightarrow> json reply) \<Rightarrow> SpecVersion \<Rightarrow> ClauseDiff list \<Rightarrow>
   error + modules" where
  "applyDiffsToSpec rewrite spec allDiffs =
     apply_entries rewrite (sv_modules spec) (group_diffs allDiffs []) (sv_modules spec)"



section \<open>Version labels\<close>

text \<open>
  Decimal numerals, for \<^verbatim>\<open>parseInt(minor)\<close> and for a number inside a template string.
  Numbers of the language are doubles; the naturals used here are faithful below \<open>2^53\<close>,
  where every integer is a double and prints as its decimal digits.
\<close>

definition is_digit :: "char \<Rightarrow> bool" where
  "is_digit c \<longleftrightarrow> 48 \<le> (of_char c :: nat) \<and> (of_char c :: nat) \<le> 57"

definition all_digits :: "string \<Rightarrow> bool" where
  "all_digits s \<longleftrightarrow> s \<noteq> [] \<and> list_all is_digit s"

definition parseInt :: "string \<Rightarrow> nat" where
  "parseInt s = foldl (\<lambda>n c. 10 * n + (of_char c - 48)) 0 s"

definition digit_char :: "nat \<Rightarrow> char" where
  "digit_char d = ''0123456789'' ! d"

function decimal :: "nat \<Rightarrow> string" where
  "decimal n = (if n < 10 then [digit_char n] else decimal (n div 10) @ [digit_char (n mod 10)])"
  by pat_completeness auto
termination
  by (relation "measure id") auto

declare decimal.simps [simp del]

text \<open>The pieces of a string between the occurrences of a separator character.\<close>

fun split_on :: "char \<Rightarrow> string \<Rightarrow> string list" where
  "split_on sep [] = [[]]"
| "split_on sep (c # cs) =
     (if c = sep then [] # split_on sep cs
      else (case split_on sep cs of p # ps \<Rightarrow> (c # p) # ps | [] \<Rightarrow> [[c]]))"

text \<open>
  The match of \<^verbatim>\<open>/^v?(\d+)\.(\d+)\.(\d+)$/\<close>: an optional leading \<^verbatim>\<open>v\<close>, then exactly three
  non-empty runs of ASCII digits separated by dots, up to the end of the string. The
  result holds the three captured groups.
\<close>

definition match_version :: "string \<Rightarrow> (string \<times> string \<times> string) option" where
  "match_version current =
     (let body = (case current of c # cs \<Rightarrow> if c = CHR ''v'' then cs else current | [] \<Rightarrow> current)
      in case split_on CHR ''.'' body of
           [major, minor, patch] \<Rightarrow>
             if all_digits major \<and> all_digits minor \<and> all_digits patch
             then Some (major, minor, patch) else None
         | _ \<Rightarrow> None)"

definition bumpMinorVersion :: "string \<Rightarrow> string" where
  "bumpMinorVersion current =
     (case match_version current of
        None \<Rightarrow> current @ ''.1''
      | Some (major, minor, patch) \<Rightarrow> ''v'' @ major @ ''.'' @ decimal (parseInt minor + 1) @ ''.0'')"

section \<open>Version store\<close>

record spec_row =
  row_id :: string
  workspace_id :: string
  parent_id :: "string option"
  version_number :: int
  version_label :: "string option"
  status :: SpecStatus
  change_reason :: string
  triggered_by :: string
  regulation_trigger :: "string option"
  jurisdictions :: "string list"
  frameworks :: "string list"
  col_master_specification :: json
  col_security_blueprint :: json
  col_cost_analysis :: json
  col_tech_stack_justification :: json
  col_code_scaffolding :: json
  created_by :: "string option"

record diff_row =
  from_version_id :: string
  to_version_id :: string
  dr_module :: string
  clause_path :: string
  field_label :: string
  before_value :: string
  after_value :: string
  dr_reason :: string
  dr_regulation_trigger :: string
  dr_severity :: string

record log_row =
  regulation_id :: string
  log_regulation_ref :: string
  log_workspace_id :: string
  spec_version_id :: string
  new_spec_version_id :: "string option"
  affected_modules :: "string list"
  diff_count :: nat
  log_status :: string

record SpecUpdatedEvent =
  su_eventId :: string
  su_eventType :: string
  su_workspaceId :: string
  su_specVersionId :: string
  su_newVersionId :: string
  su_regulationTrigger :: string
  su_affectedModules :: "string list"
  su_diffs :: "ClauseDiff list"
  githubPrRequested :: bool

record PrRequestedEvent =
  pr_eventId :: string
  pr_workspaceId :: string
  pr_specVersionId :: string
  previousVersionId :: string
  pr_regulationTrigger :: string
  pr_affectedModules :: "string list"
  pr_diffs :: "ClauseDiff list"
  pr_versionLabel :: string

datatype message = SpecUpdated SpecUpdatedEvent | SpecPrRequested PrRequestedEvent

text \<open>
  The state \<^verbatim>\<open>patchSpec\<close> works on: the three tables and the messages sent to the event
  bus, each message with its topic and key.
\<close>

record world =
  spec_versions :: "spec_row list"
  spec_diffs :: "diff_row list"
  regulation_impact_log :: "log_row list"
  published :: "(string \<times> message \<times> string) list"

text \<open>\<^verbatim>\<open>.eq('id', id).single()\<close>: the row when exactly one row has the id, an error otherwise.\<close>

definition select_single :: "spec_row list \<Rightarrow> string \<Rightarrow> spec_row option" where
  "select_single rows i = (case filter (\<lambda>r. row_id r = i) rows of [r] \<Rightarrow> Some r | _ \<Rightarrow> None)"

definition supersede :: "string \<Rightarrow> spec_row \<Rightarrow> spec_row" where
  "supersede p r = (if row_id r = p then r\<lparr>status := Superseded\<rparr> else r)"

text \<open>
  Modelled from the spec: the insert of a row into \<^verbatim>\<open>spec_versions\<close> as the database
  executes it, with the table constraints and the trigger that supersedes the parent.
  The schema and the trigger are not in the source, which only says
  \<^verbatim>\<open>status: 'active', // Trigger auto-supersedes parent via DB trigger\<close>. Following the
  specification: ids are unique; a parent id refers to a stored version; creating an
  active child flips its parent from active to superseded in the same unit of work; and
  the unit of work aborts, leaving the table as it was, when the parent it intended to
  supersede is no longer active.
\<close>

definition create_version :: "spec_row list \<Rightarrow> spec_row \<Rightarrow> string + spec_row list" where
  "create_version rows row =
     (if row_id row \<in> set (map row_id rows) then Inl ''duplicate id''
      else (case parent_id row of
              None \<Rightarrow> Inr (rows @ [row])
            | Some p \<Rightarrow>
                (case select_single rows p of
                   None \<Rightarrow> Inl ''parent version does not exist''
                 | Some parent \<Rightarrow>
                     if status row \<noteq> Active then Inr (rows @ [row])
                     else if status parent = Active
                     then Inr (map (supersede p) rows @ [row])
                     else Inl ''parent version is not active'')))"

section \<open>Spec patcher\<close>

record PatchSpecInput =
  specVersionId :: string
  in_workspaceId :: string
  in_regulation :: regulation

record SpecPatchResult =
  res_specVersionId :: string
  newVersionId :: string
  newVersionNumber :: int
  res_diffs :: "ClauseDiff list"
  affectedModules :: "string list"
  res_regulationTrigger :: string
  patchedAt :: string

text \<open>
  What \<^verbatim>\<open>patchSpec\<close> takes from outside: the three replies of the text generator, the
  identifiers \<^verbatim>\<open>uuidv4()\<close> returns (numbered in the order of the calls), whether the
  producer accepts a message of a topic, and the clock.
\<close>

record environment =
  classify :: "regulation \<Rightarrow> SpecVersion \<Rightarrow> string list reply"
  propose :: "regulation \<Rightarrow> string \<Rightarrow> json \<Rightarrow> ClauseDiff list reply"
  rewrite_module :: "string \<Rightarrow> json \<Rightarrow> ClauseDiff list \<Rightarrow> json reply"
  uuidv4 :: "nat \<Rightarrow> string"
  producer_send :: "string \<Rightarrow> bool"
  now :: string

text \<open>
  \<^verbatim>\<open>mapRowToSpec\<close>, without the three fields \<^verbatim>\<open>createdAt\<close>, \<^verbatim>\<open>scanScore\<close> and \<^verbatim>\<open>githubPrUrl\<close>,
  which \<^verbatim>\<open>patchSpec\<close> never reads.
\<close>

definition mapRowToSpec :: "spec_row \<Rightarrow> SpecVersion" where
  "mapRowToSpec row =
     \<lparr>sv_id = row_id row, workspaceId = workspace_id row, parentId = parent_id row,
      versionNumber = version_number row, versionLabel = version_label row,
      sv_status = status row, changeReason = change_reason row, triggeredBy = triggered_by row,
      sv_regulationTrigger = regulation_trigger row, sv_jurisdictions = jurisdictions row,
      sv_frameworks = frameworks row,
      sv_modules =
        \<lparr>master_specification = col_master_specification row,
         security_blueprint = col_security_blueprint row,
         cost_analysis = col_cost_analysis row,
         tech_stack_justification = col_tech_stack_justification row,
         code_scaffolding = col_code_scaffolding row\<rparr>,
      createdBy = created_by row\<rparr>"

text \<open>The result of the two early returns: nothing was patched.\<close>

definition unpatched_result ::
  "environment \<Rightarrow> PatchSpecInput \<Rightarrow> SpecVersion \<Rightarrow> string list \<Rightarrow> SpecPatchResult" where
  "unpatched_result env input currentSpec modules_found =
     \<lparr>res_specVersionId = specVersionId input, newVersionId = specVersionId input,
      newVersionNumber = versionNumber currentSpec, res_diffs = [],
      affectedModules = modules_found,
      res_regulationTrigger = regulation_ref (in_regulation input), patchedAt = now env\<rparr>"

text \<open>Step 3, the loop \<^verbatim>\<open>for (const moduleKey of affectedModules)\<close> filling \<^verbatim>\<open>allDiffs\<close>.\<close>

fun collect_diffs ::
  "(regulation \<Rightarrow> string \<Rightarrow> json \<Rightarrow> ClauseDiff list reply) \<Rightarrow> regulation \<Rightarrow> modules \<Rightarrow>
   string list \<Rightarrow> ClauseDiff list \<Rightarrow> error + ClauseDiff list" where
  "collect_diffs gen reg ms [] allDiffs = Inr allDiffs"
| "collect_diffs gen reg ms (moduleKey # rest) allDiffs =
     (case module_at ms moduleKey of
        None \<Rightarrow> collect_diffs gen reg ms rest allDiffs
      | Some moduleData \<Rightarrow>
          if \<not> js_truthy moduleData then collect_diffs gen reg ms rest allDiffs
          else (case generateModuleDiffs gen reg moduleKey moduleData of
                  Inl e \<Rightarrow> Inl e
                | Inr moduleDiffs \<Rightarrow> collect_diffs gen reg ms rest (allDiffs @ moduleDiffs)))"

text \<open>Step 5, the row handed to the insert.\<close>

definition new_version_row ::
  "PatchSpecInput \<Rightarrow> SpecVersion \<Rightarrow> string \<Rightarrow> modules \<Rightarrow> ClauseDiff list \<Rightarrow> spec_row" where
  "new_version_row input currentSpec new_id updatedModules allDiffs =
     \<lparr>row_id = new_id,
      workspace_id = in_workspaceId input,
      parent_id = Some (specVersionId input),
      version_number = versionNumber currentSpec + 1,
      version_label = Some (bumpMinorVersion (nullish_or (versionLabel currentSpec) ''v1.0.0'')),
      status = Active,
      change_reason = ''Compliance update: '' @ regulation_ref (in_regulation input) @ '' ''
        @ [CHR 0xE2, CHR 0x80, CHR 0x94] @ '' '' @ decimal (length allDiffs) @ '' clause(s) patched'',
      triggered_by = ''regulation_update'',
      regulation_trigger = Some (regulation_ref (in_regulation input)),
      jurisdictions = sv_jurisdictions currentSpec,
      frameworks = sv_frameworks currentSpec,
      col_master_specification = master_specification updatedModules,
      col_security_blueprint = security_blueprint updatedModules,
      col_cost_analysis = cost_analysis updatedModules,
      col_tech_stack_justification = tech_stack_justification updatedModules,
      col_code_scaffolding = code_scaffolding updatedModules,
      created_by = None\<rparr>"

text \<open>Step 6, one audit row per diff.\<close>

definition diff_row_of :: "string \<Rightarrow> string \<Rightarrow> ClauseDiff \<Rightarrow> diff_row" where
  "diff_row_of old_id new_id d =
     \<lparr>from_version_id = old_id, to_version_id = new_id, dr_module = diff_module d,
      clause_path = clausePath d, field_label = fieldLabel d, before_value = before d,
      after_value = after d, dr_reason = reason d,
      dr_regulation_trigger = regulationTrigger d, dr_severity = severity d\<rparr>"

text \<open>Step 7, the only write to the impact log.\<close>

definition patched_log_row ::
  "PatchSpecInput \<Rightarrow> string \<Rightarrow> string list \<Rightarrow> ClauseDiff list \<Rightarrow> log_row" where
  "patched_log_row input new_id modules_found allDiffs =
     \<lparr>regulation_id = reg_id (in_regulation input),
      log_regulation_ref = regulation_ref (in_regulation input),
      log_workspace_id = in_workspaceId input,
      spec_version_id = specVersionId input,
      new_spec_version_id = Some new_id,
      affected_modules = modules_found,
      diff_count = length allDiffs,
      log_status = ''patched''\<rparr>"

definition spec_updated_event ::
  "environment \<Rightarrow> PatchSpecInput \<Rightarrow> string \<Rightarrow> string list \<Rightarrow> ClauseDiff list \<Rightarrow> SpecUpdatedEvent" where
  "spec_updated_event env input new_id modules_found allDiffs =
     \<lparr>su_eventId = uuidv4 env 1, su_eventType = ''spec.updated'',
      su_workspaceId = in_workspaceId input, su_specVersionId = specVersionId input,
      su_newVersionId = new_id, su_regulationTrigger = regulation_ref (in_regulation input),
      su_affectedModules = modules_found, su_diffs = allDiffs, githubPrRequested = True\<rparr>"

definition pr_requested_event ::
  "environment \<Rightarrow> PatchSpecInput \<Rightarrow> string \<Rightarrow> string list \<Rightarrow> ClauseDiff list \<Rightarrow> string \<Rightarrow>
   PrRequestedEvent" where
  "pr_requested_event env input new_id modules_found allDiffs label =
     \<lparr>pr_eventId = uuidv4 env 2, pr_workspaceId = in_workspaceId input,
      pr_specVersionId = new_id, previousVersionId = specVersionId input,
      pr_regulationTrigger = regulation_ref (in_regulation input),
      pr_affectedModules = modules_found, pr_diffs = allDiffs, pr_versionLabel = label\<rparr>"

text \<open>
  \<^verbatim>\<open>publishEvent(topic, payload, key)\<close>: the message is on the bus when the producer accepts
  it, and the call rejects otherwise.
\<close>

definition publishEvent :: "environment \<Rightarrow> string \<Rightarrow> message \<Rightarrow> string \<Rightarrow> world \<Rightarrow> error + world" where
  "publishEvent env topic payload key w =
     (if producer_send env topic then Inr (w\<lparr>published := published w @ [(topic, payload, key)]\<rparr>)
      else Inl PublishFailed)"

text \<open>
  Steps 6 to 8, after the new version exists. The answers of the two inserts are not
  read by the source; the inserts are taken to succeed.
\<close>

definition record_patch ::
  "environment \<Rightarrow> PatchSpecInput \<Rightarrow> SpecVersion \<Rightarrow> string list \<Rightarrow> ClauseDiff list \<Rightarrow> spec_row \<Rightarrow>
   world \<Rightarrow> (error + SpecPatchResult) \<times> world" where
  "record_patch env input currentSpec modules_found allDiffs new_row w =
     (let new_id = row_id new_row;
          w1 = w\<lparr>spec_diffs := spec_diffs w @ map (diff_row_of (specVersionId input) new_id) allDiffs\<rparr>;
          w2 = w1\<lparr>regulation_impact_log :=
                    regulation_impact_log w1 @ [patched_log_row input new_id modules_found allDiffs]\<rparr>
      in case publishEvent env ''spec.updated''
                (SpecUpdated (spec_updated_event env input new_id modules_found allDiffs))
                (in_workspaceId input) w2 of
           Inl e \<Rightarrow> (Inl e, w2)
         | Inr w3 \<Rightarrow>
             (case publishEvent env ''spec.pr_requested''
                     (SpecPrRequested (pr_requested_event env input new_id modules_found allDiffs
                        (nullish_or (version_label new_row) [])))
                     (in_workspaceId input) w3 of
                Inl e \<Rightarrow> (Inl e, w3)
              | Inr w4 \<Rightarrow>
                  (Inr \<lparr>res_specVersionId = specVersionId input, newVersionId = new_id,
                        newVersionNumber = version_number new_row, res_diffs = allDiffs,
                        affectedModules = modules_found,
                        res_regulationTrigger = regulation_ref (in_regulation input),
                        patchedAt = now env\<rparr>, w4)))"

definition patchSpec ::
  "environment \<Rightarrow> PatchSpecInput \<Rightarrow> world \<Rightarrow> (error + SpecPatchResult) \<times> world" where
  "patchSpec env input w =
     (case select_single (spec_versions w) (specVersionId input) of
        None \<Rightarrow> (Inl (SpecNotFound (specVersionId input)), w)
      | Some specRow \<Rightarrow>
          (let currentSpec = mapRowToSpec specRow in
           case detectAffectedModules (classify env) (in_regulation input) currentSpec of
             Inl e \<Rightarrow> (Inl e, w)
           | Inr modules_found \<Rightarrow>
               if modules_found = [] then (Inr (unpatched_result env input currentSpec []), w)
               else (case collect_diffs (propose env) (in_regulation input) (sv_modules currentSpec)
                            modules_found [] of
                       Inl e \<Rightarrow> (Inl e, w)
                     | Inr allDiffs \<Rightarrow>
                         if allDiffs = []
                         then (Inr (unpatched_result env input currentSpec modules_found), w)
                         else (case applyDiffsToSpec (rewrite_module env) currentSpec allDiffs of
                                 Inl e \<Rightarrow> (Inl e, w)
                               | Inr updatedModules \<Rightarrow>
                                   (let new_row = new_version_row input currentSpec (uuidv4 env 0)
                                                    updatedModules allDiffs
                                    in case create_version (spec_versions w) new_row of
                                         Inl message \<Rightarrow> (Inl (CreateVersionFailed message), w)
                                       | Inr versions \<Rightarrow>
                                           record_patch env input currentSpec modules_found
                                             allDiffs new_row
                                             (w\<lparr>spec_versions := versions\<rparr>))))))"

text \<open>What a run of \<^verbatim>\<open>patchSpec\<close> that reaches step 5 has computed before it.\<close>

definition reaches_insert ::
  "environment \<Rightarrow> PatchSpecInput \<Rightarrow> world \<Rightarrow> spec_row \<Rightarrow> string list \<Rightarrow> ClauseDiff list \<Rightarrow>
   modules \<Rightarrow> bool" where
  "reaches_insert env input w specRow ms allDiffs updatedModules \<longleftrightarrow>
     select_single (spec_versions w) (specVersionId input) = Some specRow \<and>
     detectAffectedModules (classify env) (in_regulation input) (mapRowToSpec specRow) = Inr ms \<and>
     ms \<noteq> [] \<and>
     collect_diffs (propose env) (in_regulation input) (sv_modules (mapRowToSpec specRow)) ms [] =
       Inr allDiffs \<and>
     allDiffs \<noteq> [] \<and>
     applyDiffsToSpec (rewrite_module env) (mapRowToSpec specRow) allDiffs = Inr updatedModules"

section \<open>Clause paths\<close>

text \<open>
  Modelled from the spec: the value present at a clause path of a module payload. The
  source has no function that reads a clause path (paths are only written into prompts
  and audit rows); this one follows the specification, where a clause path is a chain of
  field names and array indices such as \<^verbatim>\<open>encryptionControls[0].algorithm\<close>, parsed into a
  traversal of the payload. \<open>before_is_current\<close> is the invariant of a clause diff for a
  clause that holds a string: \<^verbatim>\<open>before\<close> is the value present at \<^verbatim>\<open>clausePath\<close>.
\<close>

datatype path_step = Field string | Index nat

function parse_indices :: "string \<Rightarrow> path_step list option" where
  "parse_indices [] = Some []"
| "parse_indices (c # cs) =
     (if c = CHR ''[''
      then (let ds = takeWhile (\<lambda>d. d \<noteq> CHR '']'') cs;
                rest = dropWhile (\<lambda>d. d \<noteq> CHR '']'') cs
            in if all_digits ds \<and> rest \<noteq> []
               then map_option ((#) (Index (parseInt ds))) (parse_indices (tl rest))
               else None)
      else None)"
  by pat_completeness auto
termination
proof (relation "measure length")
  show "wf (measure length)" by simp
next
  fix c :: char and cs x xa
  assume "xa = dropWhile (\<lambda>d. d \<noteq> CHR '']'') cs"
  moreover have "length (dropWhile (\<lambda>d. d \<noteq> CHR '']'') cs) \<le> length cs"
    by (rule length_dropWhile_le)
  ultimately have "length (tl xa) \<le> length cs" by simp
  then show "(tl xa, c # cs) \<in> measure length" by simp
qed

definition parse_segment :: "string \<Rightarrow> path_step list option" where
  "parse_segment seg =
     (let name = takeWhile (\<lambda>c. c \<noteq> CHR ''['') seg
      in if name = [] then None
         else map_option ((#) (Field name)) (parse_indices (dropWhile (\<lambda>c. c \<noteq> CHR ''['') seg)))"

fun all_parsed :: "path_step list option list \<Rightarrow> path_step list option" where
  "all_parsed [] = Some []"
| "all_parsed (None # ps) = None"
| "all_parsed (Some steps # ps) = map_option ((@) steps) (all_parsed ps)"

definition parse_clause_path :: "string \<Rightarrow> path_step list option" where
  "parse_clause_path path = all_parsed (map parse_segment (split_on CHR ''.'' path))"

fun json_at :: "json \<Rightarrow> path_step list \<Rightarrow> json option" where
  "json_at v [] = Some v"
| "json_at (JObj members) (Field name # steps) =
     (case map_of members name of None \<Rightarrow> None | Some v \<Rightarrow> json_at v steps)"
| "json_at (JArr items) (Index i # steps) =
     (if i < length items then json_at (items ! i) steps else None)"
| "json_at v (step # steps) = None"

definition clause_value :: "json \<Rightarrow> string \<Rightarrow> json option" where
  "clause_value payload path =
     (case parse_clause_path path of None \<Rightarrow> None | Some steps \<Rightarrow> json_at payload steps)"

definition before_is_current :: "json \<Rightarrow> ClauseDiff \<Rightarrow> bool" where
  "before_is_current payload d \<longleftrightarrow> clause_value payload (clausePath d) = Some (JStr (before d))"

text \<open>
  The diffs \<^verbatim>\<open>patchSpec\<close> takes over for one affected module key: those the generator
  proposed for it, stamped, when the loaded version has a payload for the key.
\<close>

definition proposed_diffs ::
  "(regulation \<Rightarrow> string \<Rightarrow> json \<Rightarrow> ClauseDiff list reply) \<Rightarrow> regulation \<Rightarrow> modules \<Rightarrow> string \<Rightarrow>
   ClauseDiff list" where
  "proposed_diffs gen reg ms key =
     (case module_at ms key of
        None \<Rightarrow> []
      | Some moduleData \<Rightarrow>
          if js_truthy moduleData
          then (case gen reg key moduleData of Parsed proposed \<Rightarrow> map (stamp key reg) proposed | _ \<Rightarrow> [])
          else [])"

section \<open>Lineages and the single active version\<close>

text \<open>
  The first version of the lineage of a stored version: walk \<^verbatim>\<open>parent_id\<close> back to the
  version without parent. The walk is bounded by the number of stored versions, and gives
  \<open>None\<close> when it leaves the table or does not end within that bound.
\<close>

fun root_of :: "nat \<Rightarrow> spec_row list \<Rightarrow> string \<Rightarrow> string option" where
  "root_of 0 rows i = None"
| "root_of (Suc fuel) rows i =
     (case select_single rows i of
        None \<Rightarrow> None
      | Some r \<Rightarrow> (case parent_id r of None \<Rightarrow> Some i | Some p \<Rightarrow> root_of fuel rows p))"

definition lineage_root :: "spec_row list \<Rightarrow> string \<Rightarrow> string option" where
  "lineage_root rows i = root_of (length rows) rows i"

text \<open>
  A well-formed version table: ids are unique and every version has a first version.
  The single-active invariant: two active versions of the same lineage are the same
  version.
\<close>

definition well_formed :: "spec_row list \<Rightarrow> bool" where
  "well_formed rows \<longleftrightarrow>
     distinct (map row_id rows) \<and> (\<forall>r \<in> set rows. lineage_root rows (row_id r) \<noteq> None)"

definition single_active :: "spec_row list \<Rightarrow> bool" where
  "single_active rows \<longleftrightarrow>
     (\<forall>a \<in> set rows. \<forall>b \<in> set rows.
        status a = Active \<and> status b = Active \<and>
        lineage_root rows (row_id a) = lineage_root rows (row_id b) \<longrightarrow> a = b)"

section \<open>Concrete data\<close>

text \<open>
  Small inputs on which the functions above are run in the closed theorems below.
\<close>

subsection \<open>Candidates, master specifications and embeddings\<close>

definition candidate_a :: candidate where
  "candidate_a =
     \<lparr>spec_id = ''spec-a'', cand_workspace_id = ''ws-1'', cand_version_number = 1,
      cand_frameworks = [''GDPR''], cand_jurisdictions = [''EU'']\<rparr>"

definition candidate_b :: candidate where
  "candidate_b =
     \<lparr>spec_id = ''spec-b'', cand_workspace_id = ''ws-2'', cand_version_number = 3,
      cand_frameworks = [''GDPR''], cand_jurisdictions = [''EU'']\<rparr>"

definition two_candidates :: "string \<Rightarrow> string \<Rightarrow> rpc_result" where
  "two_candidates framework jurisdiction = RpcData (Some [candidate_a, candidate_b])"

definition named_master :: "string \<Rightarrow> master_spec" where
  "named_master n =
     \<lparr>projectName = Some n, projectSummary = None, problemStatement = None,
      coreFeatures = None, dataFlows = None, nonFunctionalRequirements = None\<rparr>"

definition masters_ab :: "string \<Rightarrow> master_spec option" where
  "masters_ab i =
     (if i = ''spec-a'' then Some (named_master ''alpha'')
      else if i = ''spec-b'' then Some (named_master ''beta'')
      else None)"

definition embeddings_ok :: "string \<Rightarrow> real list option" where
  "embeddings_ok t =
     (if t = ''encrypt'' then Some [1, 0]
      else if t = ''alpha'' then Some [4 / 5, 3 / 5]
      else if t = ''beta'' then Some [0, 1]
      else None)"

definition embeddings_alpha_down :: "string \<Rightarrow> real list option" where
  "embeddings_alpha_down t =
     (if t = ''encrypt'' then Some [1, 0]
      else if t = ''beta'' then Some [1, 0]
      else None)"

definition rpc_down :: "string \<Rightarrow> string \<Rightarrow> rpc_result" where
  "rpc_down framework jurisdiction = RpcError ''connection refused''"

definition embeddings_down :: "string \<Rightarrow> real list option" where
  "embeddings_down t = None"

subsection \<open>A stored specification, a regulation and a diff\<close>

definition gdpr_article_32 :: regulation where
  "gdpr_article_32 =
     \<lparr>reg_id = ''reg-32'', reg_framework = ''GDPR'', reg_article = ''Article 32'',
      reg_title = ''Security of processing'',
      reg_content = ''Data at rest is encrypted with 256-bit keys.'',
      reg_jurisdiction = ''EU'', reg_severity = ''high''\<rparr>"

definition security_payload :: json where
  "security_payload =
     JObj [(''encryptionControls'',
            JArr [JObj [(''mechanism'', JStr ''disk''), (''algorithm'', JStr ''AES-128'')]])]"

definition patched_security :: json where
  "patched_security =
     JObj [(''encryptionControls'',
            JArr [JObj [(''mechanism'', JStr ''disk''), (''algorithm'', JStr ''AES-256'')]])]"

definition sample_modules :: modules where
  "sample_modules =
     \<lparr>master_specification = JObj [(''projectName'', JStr ''alpha'')],
      security_blueprint = security_payload,
      cost_analysis = JNull,
      tech_stack_justification = JObj [],
      code_scaffolding = JObj []\<rparr>"

definition sample_spec :: SpecVersion where
  "sample_spec =
     \<lparr>sv_id = ''v-1'', workspaceId = ''ws-1'', parentId = None, versionNumber = 1,
      versionLabel = Some ''v1.0.0'', sv_status = Active, changeReason = ''Initial creation'',
      triggeredBy = ''user'', sv_regulationTrigger = None, sv_jurisdictions = [''EU''],
      sv_frameworks = [''GDPR''], sv_modules = sample_modules, createdBy = Some ''user-1''\<rparr>"

definition aes_diff :: ClauseDiff where
  "aes_diff =
     \<lparr>diff_module = ''security_blueprint'', clausePath = ''encryptionControls[0].algorithm'',
      fieldLabel = ''Encryption Algorithm'', before = ''AES-128'', after = ''AES-256'',
      reason = ''256-bit encryption required'', regulationTrigger = ''GDPR Article 32'',
      severity = ''high''\<rparr>"

definition rewrite_security :: "string \<Rightarrow> json \<Rightarrow> ClauseDiff list \<Rightarrow> json reply" where
  "rewrite_security key currentModule moduleDiffs =
     (if key = ''security_blueprint'' then Parsed patched_security else Unparsable)"


subsection \<open>A version store and environments of the patcher\<close>

definition sample_row :: spec_row where
  "sample_row =
     \<lparr>row_id = ''v-1'', workspace_id = ''ws-1'', parent_id = None, version_number = 1,
      version_label = Some ''v1.2.0'', status = Active, change_reason = ''Initial creation'',
      triggered_by = ''user'', regulation_trigger = None, jurisdictions = [''EU''],
      frameworks = [''GDPR''],
      col_master_specification = JObj [(''projectName'', JStr ''alpha'')],
      col_security_blueprint = security_payload,
      col_cost_analysis = JNull,
      col_tech_stack_justification = JObj [],
      col_code_scaffolding = JObj [],
      created_by = Some ''user-1''\<rparr>"

definition world0 :: world where
  "world0 = \<lparr>spec_versions = [sample_row], spec_diffs = [], regulation_impact_log = [], published = []\<rparr>"

definition patch_input :: PatchSpecInput where
  "patch_input = \<lparr>specVersionId = ''v-1'', in_workspaceId = ''ws-1'', in_regulation = gdpr_article_32\<rparr>"

definition sample_uuid :: "nat \<Rightarrow> string" where
  "sample_uuid n = (if n = 0 then ''v-2'' else if n = 1 then ''evt-1'' else ''evt-2'')"

definition env_patch :: environment where
  "env_patch =
     \<lparr>classify = (\<lambda>reg spec. Parsed [''security_blueprint'']),
      propose = (\<lambda>reg key data. if key = ''security_blueprint'' then Parsed [aes_diff] else Parsed []),
      rewrite_module = rewrite_security,
      uuidv4 = sample_uuid,
      producer_send = (\<lambda>topic. True),
      now = ''2025-01-01T00:00:00.000Z''\<rparr>"

definition env_no_modules :: environment where
  "env_no_modules = env_patch\<lparr>classify := (\<lambda>reg spec. Parsed [])\<rparr>"

definition env_no_diffs :: environment where
  "env_no_diffs = env_patch\<lparr>propose := (\<lambda>reg key data. Parsed [])\<rparr>"

text \<open>The version, the result and the state a successful patch of \<open>world0\<close> leads to.\<close>

definition sample_child :: spec_row where
  "sample_child =
     \<lparr>row_id = ''v-2'', workspace_id = ''ws-1'', parent_id = Some ''v-1'', version_number = 2,
      version_label = Some ''v1.3.0'', status = Active,
      change_reason = ''Compliance update: GDPR Article 32 '' @ [CHR 0xE2, CHR 0x80, CHR 0x94]
        @ '' 1 clause(s) patched'',
      triggered_by = ''regulation_update'', regulation_trigger = Some ''GDPR Article 32'',
      jurisdictions = [''EU''], frameworks = [''GDPR''],
      col_master_specification = JObj [(''projectName'', JStr ''alpha'')],
      col_security_blueprint = patched_security,
      col_cost_analysis = JNull,
      col_tech_stack_justification = JObj [],
      col_code_scaffolding = JObj [],
      created_by = None\<rparr>"

definition world1 :: "environment \<Rightarrow> ClauseDiff \<Rightarrow> world" where
  "world1 env d =
     \<lparr>spec_versions = [sample_row\<lparr>status := Superseded\<rparr>, sample_child],
      spec_diffs = [diff_row_of ''v-1'' ''v-2'' d],
      regulation_impact_log = [patched_log_row patch_input ''v-2'' [''security_blueprint''] [d]],
      published =
        [(''spec.updated'',
          SpecUpdated (spec_updated_event env patch_input ''v-2'' [''security_blueprint''] [d]),
          ''ws-1''),
         (''spec.pr_requested'',
          SpecPrRequested (pr_requested_event env patch_input ''v-2'' [''security_blueprint''] [d]
            ''v1.3.0''),
          ''ws-1'')]\<rparr>"

definition patched_result :: "ClauseDiff \<Rightarrow> SpecPatchResult" where
  "patched_result d =
     \<lparr>res_specVersionId = ''v-1'', newVersionId = ''v-2'', newVersionNumber = 2,
      res_diffs = [d], affectedModules = [''security_blueprint''],
      res_regulationTrigger = ''GDPR Article 32'', patchedAt = ''2025-01-01T00:00:00.000Z''\<rparr>"

text \<open>A proposed diff whose \<^verbatim>\<open>before\<close> is not the stored value.\<close>

definition stale_diff :: ClauseDiff where
  "stale_diff = aes_diff\<lparr>before := ''DES''\<rparr>"

definition env_stale :: environment where
  "env_stale =
     env_patch\<lparr>propose :=
       (\<lambda>reg key data. if key = ''security_blueprint'' then Parsed [stale_diff] else Parsed [])\<rparr>"

section \<open>Properties of cosine similarity\<close>

lemma cosine_loop_sums:
  "i \<le> length a \<Longrightarrow>
   cosine_loop a b i d na nb =
     (d + (\<Sum>k = i..<length a. a ! k * b ! k),
      na + (\<Sum>k = i..<length a. a ! k * a ! k),
      nb + (\<Sum>k = i..<length a. b ! k * b ! k))"
proof (induction a b i d na nb rule: cosine_loop.induct)
  case (1 a b i dot normA normB)
  show ?case
  proof (cases "i < length a")
    case True
    then have "Suc i \<le> length a" by simp
    from "1.IH" [OF True this] True show ?thesis
      by (subst cosine_loop.simps) (simp add: sum.atLeast_Suc_lessThan add.assoc)
  next
    case False
    with "1.prems" have "i = length a" by simp
    then show ?thesis
      by (subst cosine_loop.simps) simp
  qed
qed

lemma cosine_loop_closed:
  "length a = length b \<Longrightarrow>
   cosine_loop a b 0 0 0 0 = (dot_product a b, sum_squares a, sum_squares b)"
  by (simp add: cosine_loop_sums dot_product_def sum_squares_def)



section \<open>Properties of the impact analyzer\<close>

lemma score_candidates_Inr:
  "score_candidates fm emb re cs results = Inr rs \<Longrightarrow>
   rs = results @ List.map_filter (retained fm emb re) cs \<and>
   (\<forall>c \<in> set cs. \<forall>m. fm (spec_id c) = Some m \<longrightarrow>
      embedQuery emb (extractMasterSpecText (Some m)) \<noteq> None)"
proof (induction cs arbitrary: results)
  case Nil
  then show ?case by (simp add: List.map_filter_simps)
next
  case (Cons c cs)
  show ?case
  proof (cases "fm (spec_id c)")
    case None
    with Cons.prems have "score_candidates fm emb re cs results = Inr rs" by simp
    from Cons.IH [OF this] None show ?thesis
      by (simp add: List.map_filter_simps retained_def candidate_score_def)
  next
    case (Some m)
    note master = this
    show ?thesis
    proof (cases "embedQuery emb (extractMasterSpecText (Some m))")
      case None
      with master Cons.prems show ?thesis by simp
    next
      case (Some se)
      show ?thesis
      proof (cases "cosineSimilarity re se \<ge> SEMANTIC_THRESHOLD")
        case True
        with master Some Cons.prems
        have "score_candidates fm emb re cs (results @ [affected c (cosineSimilarity re se)]) = Inr rs"
          by (simp add: Let_def)
        from Cons.IH [OF this] True master Some show ?thesis
          by (simp add: List.map_filter_simps retained_def candidate_score_def)
      next
        case False
        with master Some Cons.prems
        have "score_candidates fm emb re cs results = Inr rs"
          by (simp add: Let_def)
        from Cons.IH [OF this] False master Some show ?thesis
          by (simp add: List.map_filter_simps retained_def candidate_score_def)
      qed
    qed
  qed
qed

lemma score_candidates_fails:
  "c \<in> set cs \<Longrightarrow> fm (spec_id c) = Some m \<Longrightarrow>
   embedQuery emb (extractMasterSpecText (Some m)) = None \<Longrightarrow>
   score_candidates fm emb re cs results = Inl EmbeddingFailed"
proof (induction cs arbitrary: results)
  case Nil
  then show ?case by simp
next
  case (Cons d ds)
  then show ?case
    by (cases "d = c") (auto split: option.splits simp: Let_def)
qed

lemma retained_unreadable:
  "fm (spec_id c) = None \<Longrightarrow> retained fm emb re c = None"
  by (simp add: retained_def candidate_score_def)

lemma retained_scored:
  "fm (spec_id c) = Some m \<Longrightarrow> embedQuery emb (extractMasterSpecText (Some m)) = Some se \<Longrightarrow>
   retained fm emb re c =
     (if cosineSimilarity re se \<ge> SEMANTIC_THRESHOLD
      then Some (affected c (cosineSimilarity re se)) else None)"
  by (simp add: retained_def candidate_score_def)

lemma score_candidates_returns:
  "(\<forall>c \<in> set cs. \<forall>m. fm (spec_id c) = Some m \<longrightarrow>
      embedQuery emb (extractMasterSpecText (Some m)) \<noteq> None) \<Longrightarrow>
   score_candidates fm emb re cs results = Inr (results @ List.map_filter (retained fm emb re) cs)"
proof (induction cs arbitrary: results)
  case Nil
  then show ?case by (simp add: List.map_filter_simps)
next
  case (Cons c cs)
  then have rest: "\<And>acc. score_candidates fm emb re cs acc =
      Inr (acc @ List.map_filter (retained fm emb re) cs)"
    by simp
  show ?case
  proof (cases "fm (spec_id c)")
    case None
    then show ?thesis
      by (simp add: rest List.map_filter_simps retained_unreadable)
  next
    case (Some m)
    with Cons.prems obtain se where se: "embedQuery emb (extractMasterSpecText (Some m)) = Some se"
      by auto
    have "retained fm emb re c =
        (if cosineSimilarity re se \<ge> SEMANTIC_THRESHOLD
         then Some (affected c (cosineSimilarity re se)) else None)"
      using Some se by (rule retained_scored)
    with Some se show ?thesis
      by (simp add: rest List.map_filter_simps Let_def)
  qed
qed

lemma affected_inject: "affected c s = affected c' s' \<longleftrightarrow> c = c' \<and> s = s'"
  by (auto simp: affected_def)

lemma retained_Some:
  "retained fm emb re c = Some r \<longleftrightarrow>
   (\<exists>s. candidate_score fm emb re c = Some s \<and> s \<ge> SEMANTIC_THRESHOLD \<and> r = affected c s)"
  by (auto simp: retained_def split: option.splits)

lemma in_set_map_filter:
  "y \<in> set (List.map_filter f xs) \<longleftrightarrow> (\<exists>x \<in> set xs. f x = Some y)"
  by (induction xs) (auto simp: List.map_filter_simps split: option.splits)

lemma in_set_retained:
  "r \<in> set (List.map_filter (retained fm emb re) cs) \<longleftrightarrow>
   (\<exists>c \<in> set cs. \<exists>s. candidate_score fm emb re c = Some s \<and> s \<ge> SEMANTIC_THRESHOLD \<and>
      r = affected c s)"
  by (simp add: in_set_map_filter retained_Some)

lemma sorted_sort_by_score:
  "sorted_wrt (\<lambda>a b. semanticScore a \<ge> semanticScore b) (sort_by_score rs)"
proof -
  have "sorted (map (\<lambda>r. - semanticScore r) (sort_by_score rs))"
    unfolding sort_by_score_def by (rule sorted_sort_key)
  then show ?thesis by (simp add: sorted_map)
qed

lemma set_sort_by_score: "set (sort_by_score rs) = set rs"
  by (simp add: sort_by_score_def)

lemma findAffectedSpecs_with_text:
  assumes "content \<noteq> []"
    and "findAffectedSpecs rpc fm emb framework jurisdiction (Some content) = Inr rs"
    and "stage1_candidates (rpc framework jurisdiction) \<noteq> []"
  shows "\<exists>re. embedQuery emb content = Some re \<and>
           rs = sort_by_score (List.map_filter (retained fm emb re)
                  (stage1_candidates (rpc framework jurisdiction)))"
proof -
  from assms(3) obtain cands where rpc: "rpc framework jurisdiction = RpcData (Some cands)"
    and ne: "cands \<noteq> []"
    by (auto simp: stage1_candidates_def split: rpc_result.splits option.splits)
  from assms(2) rpc ne assms(1) obtain re where re: "embedQuery emb content = Some re"
    by (auto simp: findAffectedSpecs_def split: option.splits)
  from assms(2) rpc ne assms(1) re obtain results where
    sc: "score_candidates fm emb re cands [] = Inr results" and rs: "rs = sort_by_score results"
    by (auto simp: findAffectedSpecs_def split: sum.splits)
  from score_candidates_Inr [OF sc] rs re rpc show ?thesis
    by (simp add: stage1_candidates_def)
qed

lemma findAffectedSpecs_no_candidates:
  assumes "findAffectedSpecs rpc fm emb framework jurisdiction text = Inr rs"
    and "stage1_candidates (rpc framework jurisdiction) = []"
  shows "rs = []"
  using assms
  by (auto simp: findAffectedSpecs_def stage1_candidates_def
      split: rpc_result.splits option.splits if_splits)

text \<open>
  Claim C9. When the regulation text is omitted and the Stage-1 query answers, the function
  returns every Stage-1 candidate, in the order of the query, each with semantic score 1;
  nothing is filtered and no embedding is computed.
\<close>

theorem findAffectedSpecs_without_text:
  "find_affected_specs framework jurisdiction = RpcData d \<Longrightarrow>
   findAffectedSpecs find_affected_specs fetch_master embeddings_create framework jurisdiction None =
     Inr (map (\<lambda>c. affected c 1) (stage1_candidates (RpcData d))) \<and>
   map specId (map (\<lambda>c. affected c 1) (stage1_candidates (RpcData d))) =
     map spec_id (stage1_candidates (RpcData d)) \<and>
   (\<forall>r \<in> set (map (\<lambda>c. affected c 1) (stage1_candidates (RpcData d))). semanticScore r = 1)"
  by (auto simp: findAffectedSpecs_def stage1_candidates_def affected_def split: option.splits)

theorem findAffectedSpecs_without_text_witness:
  "two_candidates ''GDPR'' ''EU'' = RpcData (Some [candidate_a, candidate_b]) \<and>
   findAffectedSpecs two_candidates (\<lambda>i. None) (\<lambda>t. None) ''GDPR'' ''EU'' None =
     Inr [affected candidate_a 1, affected candidate_b 1] \<and>
   semanticScore (affected candidate_a 1) = 1 \<and> semanticScore (affected candidate_b 1) = 1"
  using findAffectedSpecs_without_text
    [of two_candidates "''GDPR''" "''EU''" "Some [candidate_a, candidate_b]" "\<lambda>i. None" "\<lambda>t. None"]
  by (simp add: two_candidates_def stage1_candidates_def)

text \<open>
  Claim C4. When a non-empty regulation text is supplied and the call returns, a Stage-1
  candidate appears in the result, with its score, exactly when a cosine score against the
  summary of its master specification has been computed and is at least 0.65; every entry
  of the result comes from a Stage-1 candidate; and the result is in descending order of
  \<open>semanticScore\<close>. A candidate whose master specification cannot be read has no score
  and does not appear.
\<close>

theorem findAffectedSpecs_threshold_sorted:
  assumes "content \<noteq> []"
    and "findAffectedSpecs rpc fm emb framework jurisdiction (Some content) = Inr rs"
  shows "(\<forall>c \<in> set (stage1_candidates (rpc framework jurisdiction)). \<forall>s.
            affected c s \<in> set rs \<longleftrightarrow>
              (\<exists>re. embedQuery emb content = Some re \<and> candidate_score fm emb re c = Some s) \<and>
              s \<ge> 65 / 100) \<and>
         (\<forall>r \<in> set rs. \<exists>c \<in> set (stage1_candidates (rpc framework jurisdiction)). \<exists>s.
            r = affected c s) \<and>
         sorted_wrt (\<lambda>a b. semanticScore a \<ge> semanticScore b) rs"
proof (cases "stage1_candidates (rpc framework jurisdiction) = []")
  case True
  with assms(2) have "rs = []" by (rule findAffectedSpecs_no_candidates)
  with True show ?thesis by simp
next
  case False
  from findAffectedSpecs_with_text [OF assms False] obtain re where
    re: "embedQuery emb content = Some re" and
    rs: "rs = sort_by_score (List.map_filter (retained fm emb re)
              (stage1_candidates (rpc framework jurisdiction)))"
    by blast
  have mem: "\<And>r. r \<in> set rs \<longleftrightarrow>
      (\<exists>c \<in> set (stage1_candidates (rpc framework jurisdiction)). \<exists>s.
         candidate_score fm emb re c = Some s \<and> s \<ge> SEMANTIC_THRESHOLD \<and> r = affected c s)"
    by (simp add: rs set_sort_by_score in_set_retained)
  have "\<forall>c \<in> set (stage1_candidates (rpc framework jurisdiction)). \<forall>s.
          affected c s \<in> set rs \<longleftrightarrow>
            (\<exists>re. embedQuery emb content = Some re \<and> candidate_score fm emb re c = Some s) \<and>
            s \<ge> 65 / 100"
    using re by (auto simp: mem affected_inject SEMANTIC_THRESHOLD_def)
  moreover have "\<forall>r \<in> set rs. \<exists>c \<in> set (stage1_candidates (rpc framework jurisdiction)). \<exists>s.
      r = affected c s"
    using mem by blast
  moreover have "sorted_wrt (\<lambda>a b. semanticScore a \<ge> semanticScore b) rs"
    unfolding rs by (rule sorted_sort_by_score)
  ultimately show ?thesis by blast
qed

lemma embedQuery_plain_words:
  "embedQuery emb ''encrypt'' = emb ''encrypt''"
  "embedQuery emb ''alpha'' = emb ''alpha''"
  "embedQuery emb ''beta'' = emb ''beta''"
  by (simp_all add: embedQuery_def js_trim_def is_js_space_def)

lemma extractMasterSpecText_named:
  "n \<noteq> [] \<Longrightarrow> extractMasterSpecText (Some (named_master n)) = n"
  by (simp add: extractMasterSpecText_def named_master_def nullish_or_def)

lemma cosineSimilarity_samples:
  "cosineSimilarity [1, 0] [4 / 5, 3 / 5] = 4 / 5"
  "cosineSimilarity [1, 0] [0, 1] = 0"
  "cosineSimilarity [1, 0] [1, 0] = 1"
  by (simp_all add: cosineSimilarity_def cosine_loop_closed dot_product_def sum_squares_def)

lemma run_with_text:
  "findAffectedSpecs two_candidates masters_ab embeddings_ok ''GDPR'' ''EU'' (Some ''encrypt'') =
     Inr [affected candidate_a (4 / 5)]"
  by (simp add: findAffectedSpecs_def two_candidates_def masters_ab_def candidate_a_def
      candidate_b_def embedQuery_plain_words extractMasterSpecText_named embeddings_ok_def
      cosineSimilarity_samples SEMANTIC_THRESHOLD_def sort_by_score_def)

theorem findAffectedSpecs_threshold_sorted_witness:
  "''encrypt'' \<noteq> [] \<and>
   findAffectedSpecs two_candidates masters_ab embeddings_ok ''GDPR'' ''EU'' (Some ''encrypt'') =
     Inr [affected candidate_a (4 / 5)] \<and>
   stage1_candidates (two_candidates ''GDPR'' ''EU'') = [candidate_a, candidate_b] \<and>
   embedQuery embeddings_ok ''encrypt'' = Some [1, 0] \<and>
   candidate_score masters_ab embeddings_ok [1, 0] candidate_a = Some (4 / 5) \<and>
   (4 / 5 :: real) \<ge> 65 / 100 \<and>
   affected candidate_a (4 / 5) \<in> set [affected candidate_a (4 / 5)] \<and>
   candidate_score masters_ab embeddings_ok [1, 0] candidate_b = Some 0 \<and>
   \<not> (0 :: real) \<ge> 65 / 100 \<and>
   affected candidate_b 0 \<notin> set [affected candidate_a (4 / 5)] \<and>
   sorted_wrt (\<lambda>a b. semanticScore a \<ge> semanticScore b) [affected candidate_a (4 / 5)]"
proof -
  have nonempty: "''encrypt'' \<noteq> []" by simp
  have cands: "stage1_candidates (two_candidates ''GDPR'' ''EU'') = [candidate_a, candidate_b]"
    by (simp add: stage1_candidates_def two_candidates_def)
  have reg: "embedQuery embeddings_ok ''encrypt'' = Some [1, 0]"
    by (simp add: embedQuery_plain_words embeddings_ok_def)
  have scores:
    "candidate_score masters_ab embeddings_ok [1, 0] candidate_a = Some (4 / 5)"
    "candidate_score masters_ab embeddings_ok [1, 0] candidate_b = Some 0"
    by (simp_all add: candidate_score_def masters_ab_def candidate_a_def candidate_b_def
        embedQuery_plain_words extractMasterSpecText_named embeddings_ok_def
        cosineSimilarity_samples)
  note inst = findAffectedSpecs_threshold_sorted [OF nonempty run_with_text]
  from inst cands have a: "affected candidate_a (4 / 5) \<in> set [affected candidate_a (4 / 5)]"
    by simp
  from inst cands reg scores
  have b: "affected candidate_b 0 \<notin> set [affected candidate_a (4 / 5)]"
    by auto
  from inst have sorted: "sorted_wrt (\<lambda>a b. semanticScore a \<ge> semanticScore b)
      [affected candidate_a (4 / 5)]"
    by blast
  from nonempty run_with_text cands reg scores a b sorted show ?thesis by simp
qed

lemma stage1_candidates_data:
  "stage1_candidates r \<noteq> [] \<Longrightarrow> r = RpcData (Some (stage1_candidates r))"
  by (auto simp: stage1_candidates_def split: rpc_result.splits option.splits)

text \<open>
  Claim C7, as stated, fails: the embedding call inside the candidate loop is not guarded,
  so one candidate whose embedding is rejected makes the whole call throw. Here the
  embedding of the first candidate's summary fails, the second candidate would score 1,
  and the call returns no candidate at all.
\<close>

theorem findAffectedSpecs_embedding_failure_counterexample:
  "embedQuery embeddings_alpha_down (extractMasterSpecText (masters_ab (spec_id candidate_a))) = None \<and>
   candidate_score masters_ab embeddings_alpha_down [1, 0] candidate_b = Some 1 \<and>
   findAffectedSpecs two_candidates masters_ab embeddings_alpha_down ''GDPR'' ''EU'' (Some ''encrypt'') =
     Inl EmbeddingFailed"
  by (simp add: findAffectedSpecs_def two_candidates_def masters_ab_def candidate_a_def
      candidate_b_def candidate_score_def embedQuery_plain_words extractMasterSpecText_named
      embeddings_alpha_down_def cosineSimilarity_samples)

text \<open>
  Claim C7, amended. A failure of the Stage-1 query is fatal for the whole call. With a
  non-empty regulation text and at least one candidate, a rejected embedding of the
  regulation text is fatal, and so is a rejected embedding of the summary of any one
  candidate whose master specification was read: the call throws and returns nothing.
  When no embedding is rejected the call returns, and candidates whose master
  specification cannot be read are the only ones left out without a score.
\<close>

theorem findAffectedSpecs_failures:
  "(rpc framework jurisdiction = RpcError message \<longrightarrow>
      findAffectedSpecs rpc fm emb framework jurisdiction regulationContent =
        Inl (DbQueryFailed message)) \<and>
   (content \<noteq> [] \<and> stage1_candidates (rpc framework jurisdiction) \<noteq> [] \<and>
    embedQuery emb content = None \<longrightarrow>
      findAffectedSpecs rpc fm emb framework jurisdiction (Some content) = Inl EmbeddingFailed) \<and>
   (content \<noteq> [] \<and> c \<in> set (stage1_candidates (rpc framework jurisdiction)) \<and>
    fm (spec_id c) = Some m \<and> embedQuery emb (extractMasterSpecText (Some m)) = None \<longrightarrow>
      findAffectedSpecs rpc fm emb framework jurisdiction (Some content) = Inl EmbeddingFailed) \<and>
   (content \<noteq> [] \<and> stage1_candidates (rpc framework jurisdiction) \<noteq> [] \<and>
    embedQuery emb content = Some re \<and>
    (\<forall>c \<in> set (stage1_candidates (rpc framework jurisdiction)). \<forall>m.
       fm (spec_id c) = Some m \<longrightarrow> embedQuery emb (extractMasterSpecText (Some m)) \<noteq> None) \<longrightarrow>
      findAffectedSpecs rpc fm emb framework jurisdiction (Some content) =
        Inr (sort_by_score (List.map_filter (retained fm emb re)
               (stage1_candidates (rpc framework jurisdiction)))))"
proof (intro conjI impI)
  assume "rpc framework jurisdiction = RpcError message"
  then show "findAffectedSpecs rpc fm emb framework jurisdiction regulationContent =
      Inl (DbQueryFailed message)"
    by (simp add: findAffectedSpecs_def)
next
  assume "content \<noteq> [] \<and> stage1_candidates (rpc framework jurisdiction) \<noteq> [] \<and>
    embedQuery emb content = None"
  then show "findAffectedSpecs rpc fm emb framework jurisdiction (Some content) = Inl EmbeddingFailed"
    by (auto simp: findAffectedSpecs_def stage1_candidates_def
        split: rpc_result.splits option.splits)
next
  assume a: "content \<noteq> [] \<and> c \<in> set (stage1_candidates (rpc framework jurisdiction)) \<and>
    fm (spec_id c) = Some m \<and> embedQuery emb (extractMasterSpecText (Some m)) = None"
  define cands where "cands = stage1_candidates (rpc framework jurisdiction)"
  from a have c: "c \<in> set cands" by (simp add: cands_def)
  then have "stage1_candidates (rpc framework jurisdiction) \<noteq> []"
    by (auto simp: cands_def)
  then have rpc: "rpc framework jurisdiction = RpcData (Some cands)"
    unfolding cands_def by (rule stage1_candidates_data)
  have loop: "\<And>reg. score_candidates fm emb reg cands [] = Inl EmbeddingFailed"
    using c a by (blast intro: score_candidates_fails)
  from c have "cands \<noteq> []" by auto
  with a rpc loop show "findAffectedSpecs rpc fm emb framework jurisdiction (Some content) =
      Inl EmbeddingFailed"
    by (simp add: findAffectedSpecs_def split: option.splits)
next
  assume a: "content \<noteq> [] \<and> stage1_candidates (rpc framework jurisdiction) \<noteq> [] \<and>
    embedQuery emb content = Some re \<and>
    (\<forall>c \<in> set (stage1_candidates (rpc framework jurisdiction)). \<forall>m.
       fm (spec_id c) = Some m \<longrightarrow> embedQuery emb (extractMasterSpecText (Some m)) \<noteq> None)"
  define cands where "cands = stage1_candidates (rpc framework jurisdiction)"
  from a have ne: "cands \<noteq> []" by (simp add: cands_def)
  then have rpc: "rpc framework jurisdiction = RpcData (Some cands)"
    unfolding cands_def by (rule stage1_candidates_data)
  with a have "\<forall>c \<in> set cands. \<forall>m.
       fm (spec_id c) = Some m \<longrightarrow> embedQuery emb (extractMasterSpecText (Some m)) \<noteq> None"
    by (simp add: stage1_candidates_def)
  then have "score_candidates fm emb re cands [] =
      Inr ([] @ List.map_filter (retained fm emb re) cands)"
    by (rule score_candidates_returns)
  with a rpc ne show "findAffectedSpecs rpc fm emb framework jurisdiction (Some content) =
        Inr (sort_by_score (List.map_filter (retained fm emb re)
               (stage1_candidates (rpc framework jurisdiction))))"
    by (simp add: findAffectedSpecs_def stage1_candidates_def)
qed

theorem findAffectedSpecs_failures_witness:
  "rpc_down ''GDPR'' ''EU'' = RpcError ''connection refused'' \<and>
   findAffectedSpecs rpc_down masters_ab embeddings_ok ''GDPR'' ''EU'' (Some ''encrypt'') =
     Inl (DbQueryFailed ''connection refused'') \<and>
   ''encrypt'' \<noteq> [] \<and> stage1_candidates (two_candidates ''GDPR'' ''EU'') \<noteq> [] \<and>
   embedQuery embeddings_down ''encrypt'' = None \<and>
   findAffectedSpecs two_candidates masters_ab embeddings_down ''GDPR'' ''EU'' (Some ''encrypt'') =
     Inl EmbeddingFailed \<and>
   candidate_a \<in> set (stage1_candidates (two_candidates ''GDPR'' ''EU'')) \<and>
   masters_ab (spec_id candidate_a) = Some (named_master ''alpha'') \<and>
   embedQuery embeddings_alpha_down (extractMasterSpecText (Some (named_master ''alpha''))) = None \<and>
   findAffectedSpecs two_candidates masters_ab embeddings_alpha_down ''GDPR'' ''EU'' (Some ''encrypt'') =
     Inl EmbeddingFailed \<and>
   embedQuery embeddings_ok ''encrypt'' = Some [1, 0] \<and>
   stage1_candidates (two_candidates ''GDPR'' ''EU'') = [candidate_a, candidate_b] \<and>
   embedQuery embeddings_ok (extractMasterSpecText (masters_ab (spec_id candidate_a))) \<noteq> None \<and>
   embedQuery embeddings_ok (extractMasterSpecText (masters_ab (spec_id candidate_b))) \<noteq> None \<and>
   findAffectedSpecs two_candidates masters_ab embeddings_ok ''GDPR'' ''EU'' (Some ''encrypt'') =
     Inr (sort_by_score (List.map_filter (retained masters_ab embeddings_ok [1, 0])
            (stage1_candidates (two_candidates ''GDPR'' ''EU''))))"
proof -
  have h1: "rpc_down ''GDPR'' ''EU'' = RpcError ''connection refused''"
    by (simp add: rpc_down_def)
  have h2: "''encrypt'' \<noteq> [] \<and> stage1_candidates (two_candidates ''GDPR'' ''EU'') \<noteq> [] \<and>
      embedQuery embeddings_down ''encrypt'' = None"
    by (simp add: stage1_candidates_def two_candidates_def embedQuery_def embeddings_down_def)
  have h3: "''encrypt'' \<noteq> [] \<and>
      candidate_a \<in> set (stage1_candidates (two_candidates ''GDPR'' ''EU'')) \<and>
      masters_ab (spec_id candidate_a) = Some (named_master ''alpha'') \<and>
      embedQuery embeddings_alpha_down (extractMasterSpecText (Some (named_master ''alpha''))) = None"
    by (simp add: stage1_candidates_def two_candidates_def masters_ab_def candidate_a_def
        extractMasterSpecText_named embedQuery_plain_words embeddings_alpha_down_def)
  have h4: "''encrypt'' \<noteq> [] \<and> stage1_candidates (two_candidates ''GDPR'' ''EU'') \<noteq> [] \<and>
      embedQuery embeddings_ok ''encrypt'' = Some [1, 0] \<and>
      (\<forall>c \<in> set (stage1_candidates (two_candidates ''GDPR'' ''EU'')). \<forall>m.
         masters_ab (spec_id c) = Some m \<longrightarrow>
         embedQuery embeddings_ok (extractMasterSpecText (Some m)) \<noteq> None)"
    by (auto simp: stage1_candidates_def two_candidates_def masters_ab_def candidate_a_def
        candidate_b_def extractMasterSpecText_named embedQuery_plain_words embeddings_ok_def)
  from findAffectedSpecs_failures
      [of rpc_down "''GDPR''" "''EU''" "''connection refused''" masters_ab embeddings_ok
        "Some ''encrypt''" "''encrypt''" candidate_a "named_master ''alpha''" "[1, 0]"]
    h1
  have c1: "findAffectedSpecs rpc_down masters_ab embeddings_ok ''GDPR'' ''EU'' (Some ''encrypt'') =
      Inl (DbQueryFailed ''connection refused'')"
    by blast
  from findAffectedSpecs_failures
      [of two_candidates "''GDPR''" "''EU''" "[]" masters_ab embeddings_down
        "Some ''encrypt''" "''encrypt''" candidate_a "named_master ''alpha''" "[1, 0]"]
    h2
  have c2: "findAffectedSpecs two_candidates masters_ab embeddings_down ''GDPR'' ''EU''
      (Some ''encrypt'') = Inl EmbeddingFailed"
    by blast
  from findAffectedSpecs_failures
      [of two_candidates "''GDPR''" "''EU''" "[]" masters_ab embeddings_alpha_down
        "Some ''encrypt''" "''encrypt''" candidate_a "named_master ''alpha''" "[1, 0]"]
    h3
  have c3: "findAffectedSpecs two_candidates masters_ab embeddings_alpha_down ''GDPR'' ''EU''
      (Some ''encrypt'') = Inl EmbeddingFailed"
    by blast
  from findAffectedSpecs_failures
      [of two_candidates "''GDPR''" "''EU''" "[]" masters_ab embeddings_ok
        "Some ''encrypt''" "''encrypt''" candidate_a "named_master ''alpha''" "[1, 0]"]
    h4
  have c4: "findAffectedSpecs two_candidates masters_ab embeddings_ok ''GDPR'' ''EU''
      (Some ''encrypt'') =
      Inr (sort_by_score (List.map_filter (retained masters_ab embeddings_ok [1, 0])
            (stage1_candidates (two_candidates ''GDPR'' ''EU''))))"
    by blast
  have each: "stage1_candidates (two_candidates ''GDPR'' ''EU'') = [candidate_a, candidate_b] \<and>
      embedQuery embeddings_ok (extractMasterSpecText (masters_ab (spec_id candidate_a))) \<noteq> None \<and>
      embedQuery embeddings_ok (extractMasterSpecText (masters_ab (spec_id candidate_b))) \<noteq> None"
    by (simp add: stage1_candidates_def two_candidates_def masters_ab_def candidate_a_def
        candidate_b_def extractMasterSpecText_named embedQuery_plain_words embeddings_ok_def)
  from h1 h2 h3 h4 each c1 c2 c3 c4 show ?thesis by blast
qed

section \<open>Properties of the diff engine\<close>













lemma run_rewrite_security:
  "applyDiffsToSpec rewrite_security sample_spec [aes_diff] =
     Inr (sample_modules\<lparr>security_blueprint := patched_security\<rparr>)"
  by (simp add: applyDiffsToSpec_def push_diff_def aes_diff_def sample_spec_def
      sample_modules_def module_at_def security_payload_def rewrite_security_def set_module_def)



section \<open>Properties of the spec patcher\<close>

lemma record_patch_versions:
  "record_patch env input currentSpec ms allDiffs new_row w = (out, w') \<Longrightarrow>
   spec_versions w' = spec_versions w"
  by (auto simp: record_patch_def publishEvent_def Let_def split: sum.splits if_splits)

lemma patchSpec_at_insert:
  "reaches_insert env input w specRow ms allDiffs updatedModules \<Longrightarrow>
   patchSpec env input w =
     (case create_version (spec_versions w)
             (new_version_row input (mapRowToSpec specRow) (uuidv4 env 0) updatedModules allDiffs) of
        Inl message \<Rightarrow> (Inl (CreateVersionFailed message), w)
      | Inr versions \<Rightarrow>
          record_patch env input (mapRowToSpec specRow) ms allDiffs
            (new_version_row input (mapRowToSpec specRow) (uuidv4 env 0) updatedModules allDiffs)
            (w\<lparr>spec_versions := versions\<rparr>))"
  by (simp add: reaches_insert_def patchSpec_def Let_def)

lemma patchSpec_unpatched:
  assumes "select_single (spec_versions w) (specVersionId input) = Some specRow"
    and "detectAffectedModules (classify env) (in_regulation input) (mapRowToSpec specRow) = Inr ms"
    and "ms = [] \<or>
         collect_diffs (propose env) (in_regulation input) (sv_modules (mapRowToSpec specRow)) ms [] =
           Inr []"
  shows "patchSpec env input w = (Inr (unpatched_result env input (mapRowToSpec specRow) ms), w)"
  using assms by (auto simp: patchSpec_def Let_def)

lemma patchSpec_outcomes:
  assumes "patchSpec env input w = (out, w')"
  shows "(w' = w \<and> (\<exists>e. out = Inl e)) \<or>
         (w' = w \<and> (\<exists>specRow ms. select_single (spec_versions w) (specVersionId input) = Some specRow \<and>
            out = Inr (unpatched_result env input (mapRowToSpec specRow) ms))) \<or>
         (\<exists>specRow ms allDiffs updatedModules versions.
            reaches_insert env input w specRow ms allDiffs updatedModules \<and>
            create_version (spec_versions w)
              (new_version_row input (mapRowToSpec specRow) (uuidv4 env 0) updatedModules allDiffs) =
              Inr versions \<and>
            record_patch env input (mapRowToSpec specRow) ms allDiffs
              (new_version_row input (mapRowToSpec specRow) (uuidv4 env 0) updatedModules allDiffs)
              (w\<lparr>spec_versions := versions\<rparr>) = (out, w'))"
proof (cases "select_single (spec_versions w) (specVersionId input)")
  case None
  with assms show ?thesis by (auto simp: patchSpec_def)
next
  case (Some specRow)
  note row = this
  show ?thesis
  proof (cases "detectAffectedModules (classify env) (in_regulation input) (mapRowToSpec specRow)")
    case (Inl e)
    with assms row show ?thesis by (auto simp: patchSpec_def Let_def)
  next
    case (Inr ms)
    note det = this
    show ?thesis
    proof (cases "ms = []")
      case True
      with assms row det show ?thesis by (auto simp: patchSpec_def Let_def)
    next
      case False
      note ne = this
      show ?thesis
      proof (cases "collect_diffs (propose env) (in_regulation input)
                      (sv_modules (mapRowToSpec specRow)) ms []")
        case (Inl e)
        with assms row det ne show ?thesis by (auto simp: patchSpec_def Let_def)
      next
        case (Inr allDiffs)
        note col = this
        show ?thesis
        proof (cases "allDiffs = []")
          case True
          with assms row det ne col show ?thesis by (auto simp: patchSpec_def Let_def)
        next
          case False
          note dne = this
          show ?thesis
          proof (cases "applyDiffsToSpec (rewrite_module env) (mapRowToSpec specRow) allDiffs")
            case (Inl e)
            with assms row det ne col dne show ?thesis by (auto simp: patchSpec_def Let_def)
          next
            case (Inr updatedModules)
            have reach: "reaches_insert env input w specRow ms allDiffs updatedModules"
              using row det ne col dne Inr by (simp add: reaches_insert_def)
            show ?thesis
            proof (cases "create_version (spec_versions w)
                (new_version_row input (mapRowToSpec specRow) (uuidv4 env 0) updatedModules allDiffs)")
              case (Inl message)
              with assms patchSpec_at_insert [OF reach] show ?thesis by auto
            next
              case (Inr versions)
              with assms patchSpec_at_insert [OF reach] reach show ?thesis by auto
            qed
          qed
        qed
      qed
    qed
  qed
qed

lemma select_sample_row: "select_single (spec_versions world0) (specVersionId patch_input) = Some sample_row"
  by (simp add: select_single_def world0_def patch_input_def sample_row_def)

lemma sample_row_modules: "sv_modules (mapRowToSpec sample_row) = sample_modules"
  by (simp add: mapRowToSpec_def sample_row_def sample_modules_def)

text \<open>
  Claim C3, as stated, fails: on the two early returns \<^verbatim>\<open>patchSpec\<close> writes no impact-log
  row. Here the classifier answers with the empty array, the call succeeds, and the
  impact log is as empty after the call as it was before: there is no row with status
  \<^verbatim>\<open>no_change\<close>.
\<close>

theorem patchSpec_no_change_log_counterexample:
  "detectAffectedModules (classify env_no_modules) (in_regulation patch_input)
     (mapRowToSpec sample_row) = Inr [] \<and>
   fst (patchSpec env_no_modules patch_input world0) =
     Inr (unpatched_result env_no_modules patch_input (mapRowToSpec sample_row) []) \<and>
   regulation_impact_log (snd (patchSpec env_no_modules patch_input world0)) = []"
proof -
  have det: "detectAffectedModules (classify env_no_modules) (in_regulation patch_input)
     (mapRowToSpec sample_row) = Inr []"
    by (simp add: detectAffectedModules_def env_no_modules_def env_patch_def)
  from patchSpec_unpatched [OF select_sample_row det] det show ?thesis
    by (simp add: world0_def)
qed

text \<open>
  Claim C3, amended. When the classifier returns an empty module set, or the aggregate diff
  list is empty, \<^verbatim>\<open>patchSpec\<close> terminates successfully and writes nothing: no version row is
  created, and no impact-log row, diff row or message either. The outcome is reported
  in the returned value only, whose \<^verbatim>\<open>newVersionId\<close> is the id of the loaded version,
  whose \<^verbatim>\<open>newVersionNumber\<close> is its number, and whose diff list is empty.
\<close>

theorem patchSpec_no_change:
  assumes "select_single (spec_versions w) (specVersionId input) = Some specRow"
    and "detectAffectedModules (classify env) (in_regulation input) (mapRowToSpec specRow) = Inr ms"
    and "ms = [] \<or>
         collect_diffs (propose env) (in_regulation input) (sv_modules (mapRowToSpec specRow)) ms [] =
           Inr []"
  shows "\<exists>res. patchSpec env input w = (Inr res, w) \<and>
           newVersionId res = specVersionId input \<and>
           newVersionNumber res = version_number specRow \<and>
           res_diffs res = [] \<and> affectedModules res = ms"
proof -
  have "patchSpec env input w = (Inr (unpatched_result env input (mapRowToSpec specRow) ms), w)"
    using assms by (rule patchSpec_unpatched)
  then show ?thesis
    by (simp add: unpatched_result_def mapRowToSpec_def)
qed

theorem patchSpec_no_change_witness:
  "select_single (spec_versions world0) (specVersionId patch_input) = Some sample_row \<and>
   detectAffectedModules (classify env_no_diffs) (in_regulation patch_input)
     (mapRowToSpec sample_row) = Inr [''security_blueprint''] \<and>
   collect_diffs (propose env_no_diffs) (in_regulation patch_input)
     (sv_modules (mapRowToSpec sample_row)) [''security_blueprint''] [] = Inr [] \<and>
   (\<exists>res. patchSpec env_no_diffs patch_input world0 = (Inr res, world0) \<and>
      newVersionId res = ''v-1'' \<and> newVersionNumber res = 1 \<and> res_diffs res = [] \<and>
      affectedModules res = [''security_blueprint''])"
proof -
  have det: "detectAffectedModules (classify env_no_diffs) (in_regulation patch_input)
     (mapRowToSpec sample_row) = Inr [''security_blueprint'']"
    by (simp add: detectAffectedModules_def env_no_diffs_def env_patch_def)
  have col: "collect_diffs (propose env_no_diffs) (in_regulation patch_input)
     (sv_modules (mapRowToSpec sample_row)) [''security_blueprint''] [] = Inr []"
    by (simp add: sample_row_modules sample_modules_def module_at_def security_payload_def
        generateModuleDiffs_def env_no_diffs_def env_patch_def)
  have "[''security_blueprint''] = [] \<or>
      collect_diffs (propose env_no_diffs) (in_regulation patch_input)
        (sv_modules (mapRowToSpec sample_row)) [''security_blueprint''] [] = Inr []"
    using col by simp
  from patchSpec_no_change [OF select_sample_row det this] select_sample_row det col
  show ?thesis
    by (simp add: patch_input_def sample_row_def)
qed




section \<open>Properties of version labels and version creation\<close>













lemma decimal_small:
  "decimal 3 = ''3''" "decimal 1 = ''1''" "decimal (Suc 0) = ''1''" "decimal 10 = ''10''"
  by (simp_all add: decimal.simps digit_char_def)

lemma bump_examples:
  "bumpMinorVersion ''v1.2.0'' = ''v1.3.0''"
  "bumpMinorVersion ''draft-7'' = ''draft-7.1''"
  by (simp_all add: bumpMinorVersion_def match_version_def all_digits_def is_digit_def
      parseInt_def decimal_small)

lemma stamp_aes: "stamp ''security_blueprint'' gdpr_article_32 aes_diff = aes_diff"
  by (simp add: stamp_def aes_diff_def regulation_ref_def gdpr_article_32_def)

lemma run_collect:
  "collect_diffs (propose env_patch) (in_regulation patch_input)
     (sv_modules (mapRowToSpec sample_row)) [''security_blueprint''] [] = Inr [aes_diff]"
  by (simp add: sample_row_modules sample_modules_def module_at_def security_payload_def
      generateModuleDiffs_def env_patch_def patch_input_def stamp_aes)

lemma run_reaches:
  "reaches_insert env_patch patch_input world0 sample_row [''security_blueprint''] [aes_diff]
     (sample_modules\<lparr>security_blueprint := patched_security\<rparr>)"
proof -
  have "mapRowToSpec sample_row = sample_spec\<lparr>versionLabel := Some ''v1.2.0''\<rparr>"
    by (simp add: mapRowToSpec_def sample_row_def sample_spec_def sample_modules_def)
  moreover have "applyDiffsToSpec rewrite_security (sample_spec\<lparr>versionLabel := Some ''v1.2.0''\<rparr>) [aes_diff] =
     Inr (sample_modules\<lparr>security_blueprint := patched_security\<rparr>)"
    using run_rewrite_security by (simp add: applyDiffsToSpec_def sample_spec_def)
  ultimately show ?thesis
    using select_sample_row run_collect
    by (simp add: reaches_insert_def detectAffectedModules_def env_patch_def)
qed

lemma run_new_row:
  "new_version_row patch_input (mapRowToSpec sample_row) (uuidv4 env_patch 0)
     (sample_modules\<lparr>security_blueprint := patched_security\<rparr>) [aes_diff] = sample_child"
  by (simp add: new_version_row_def sample_child_def patch_input_def mapRowToSpec_def sample_row_def
      env_patch_def sample_uuid_def sample_modules_def nullish_or_def bump_examples
      regulation_ref_def gdpr_article_32_def decimal_small)

lemma run_create:
  "create_version (spec_versions world0) sample_child = Inr [sample_row\<lparr>status := Superseded\<rparr>, sample_child]"
  by (simp add: create_version_def world0_def sample_child_def sample_row_def select_single_def
      supersede_def)

lemma run_patch:
  "patchSpec env_patch patch_input world0 = (Inr (patched_result aes_diff), world1 env_patch aes_diff)"
  unfolding patchSpec_at_insert [OF run_reaches] run_new_row run_create
  by (simp add: record_patch_def publishEvent_def env_patch_def world0_def world1_def
      patched_result_def patch_input_def sample_child_def regulation_ref_def gdpr_article_32_def
      nullish_or_def Let_def)

lemma select_single_Some:
  "select_single rows i = Some r \<Longrightarrow> r \<in> set rows \<and> row_id r = i"
proof -
  assume "select_single rows i = Some r"
  then have "filter (\<lambda>r. row_id r = i) rows = [r]"
    by (auto simp: select_single_def split: list.splits)
  then have "r \<in> set (filter (\<lambda>r. row_id r = i) rows)" by simp
  then show ?thesis by simp
qed


lemma record_patch_result:
  "record_patch env input currentSpec ms allDiffs new_row w = (Inr res, w') \<Longrightarrow>
   newVersionId res = row_id new_row \<and> newVersionNumber res = version_number new_row \<and>
   res_diffs res = allDiffs \<and> affectedModules res = ms"
  by (auto simp: record_patch_def Let_def split: sum.splits)






section \<open>The patcher and the before value of a diff\<close>

lemma collect_diffs_Inr:
  "collect_diffs gen reg ms keys acc = Inr collected \<Longrightarrow>
   collected = acc @ concat (map (proposed_diffs gen reg ms) keys)"
proof (induction keys arbitrary: acc)
  case Nil
  then show ?case by simp
next
  case (Cons key keys)
  show ?case
  proof (cases "module_at ms key")
    case None
    with Cons.prems have "collect_diffs gen reg ms keys acc = Inr collected" by simp
    from Cons.IH [OF this] None show ?thesis by (simp add: proposed_diffs_def)
  next
    case (Some moduleData)
    show ?thesis
    proof (cases "js_truthy moduleData")
      case False
      with Some Cons.prems have "collect_diffs gen reg ms keys acc = Inr collected" by simp
      from Cons.IH [OF this] Some False show ?thesis by (simp add: proposed_diffs_def)
    next
      case True
      with Some Cons.prems obtain moduleDiffs where
        gen: "generateModuleDiffs gen reg key moduleData = Inr moduleDiffs" and
        rest: "collect_diffs gen reg ms keys (acc @ moduleDiffs) = Inr collected"
        by (auto split: sum.splits)
      from gen have "moduleDiffs = proposed_diffs gen reg ms key"
        using Some True by (auto simp: generateModuleDiffs_def proposed_diffs_def split: reply.splits)
      with Cons.IH [OF rest] show ?thesis by simp
    qed
  qed
qed

lemma record_patch_spec_diffs:
  "record_patch env input currentSpec ms allDiffs new_row w = (Inr res, w') \<Longrightarrow>
   spec_diffs w' =
     spec_diffs w @ map (diff_row_of (specVersionId input) (row_id new_row)) allDiffs"
  by (auto simp: record_patch_def publishEvent_def Let_def split: sum.splits if_splits)

lemma stale_before:
  "clause_value security_payload (clausePath stale_diff) = Some (JStr ''AES-128'')"
  by (simp add: clause_value_def parse_clause_path_def parse_segment_def stale_diff_def
      aes_diff_def security_payload_def all_digits_def is_digit_def parseInt_def)

lemma stamp_stale: "stamp ''security_blueprint'' gdpr_article_32 stale_diff = stale_diff"
  by (simp add: stamp_def stale_diff_def aes_diff_def regulation_ref_def gdpr_article_32_def)

lemma run_stale:
  "patchSpec env_stale patch_input world0 =
     (Inr (patched_result stale_diff), world1 env_stale stale_diff)"
proof -
  have spec: "mapRowToSpec sample_row = sample_spec\<lparr>versionLabel := Some ''v1.2.0''\<rparr>"
    by (simp add: mapRowToSpec_def sample_row_def sample_spec_def sample_modules_def)
  have col: "collect_diffs (propose env_stale) (in_regulation patch_input)
     (sv_modules (mapRowToSpec sample_row)) [''security_blueprint''] [] = Inr [stale_diff]"
    by (simp add: sample_row_modules sample_modules_def module_at_def security_payload_def
        generateModuleDiffs_def env_stale_def env_patch_def patch_input_def stamp_stale)
  have app: "applyDiffsToSpec rewrite_security (sample_spec\<lparr>versionLabel := Some ''v1.2.0''\<rparr>)
      [stale_diff] = Inr (sample_modules\<lparr>security_blueprint := patched_security\<rparr>)"
    by (simp add: applyDiffsToSpec_def push_diff_def stale_diff_def aes_diff_def sample_spec_def
        sample_modules_def module_at_def security_payload_def rewrite_security_def set_module_def)
  have reach: "reaches_insert env_stale patch_input world0 sample_row [''security_blueprint'']
      [stale_diff] (sample_modules\<lparr>security_blueprint := patched_security\<rparr>)"
    using select_sample_row col app spec
    by (simp add: reaches_insert_def detectAffectedModules_def env_stale_def env_patch_def)
  have row: "new_version_row patch_input (mapRowToSpec sample_row) (uuidv4 env_stale 0)
     (sample_modules\<lparr>security_blueprint := patched_security\<rparr>) [stale_diff] = sample_child"
    by (simp add: new_version_row_def sample_child_def patch_input_def mapRowToSpec_def
        sample_row_def env_stale_def env_patch_def sample_uuid_def sample_modules_def
        nullish_or_def bump_examples regulation_ref_def gdpr_article_32_def decimal_small)
  show ?thesis
    unfolding patchSpec_at_insert [OF reach] row run_create
    by (simp add: record_patch_def publishEvent_def env_stale_def env_patch_def world0_def
        world1_def patched_result_def patch_input_def sample_child_def regulation_ref_def
        gdpr_article_32_def nullish_or_def Let_def)
qed

text \<open>
  Claim C2, as stated, fails: nothing in the pipeline compares \<^verbatim>\<open>before\<close> with the payload.
  Here the value at the clause path is \<^verbatim>\<open>AES-128\<close>, the proposed diff says \<^verbatim>\<open>DES\<close>, and
  \<^verbatim>\<open>patchSpec\<close> succeeds all the same: the stale diff is applied, returned and audited, and
  a new version is created from it.
\<close>

theorem patchSpec_stale_before_counterexample:
  "clause_value security_payload (clausePath stale_diff) = Some (JStr ''AES-128'') \<and>
   before stale_diff = ''DES'' \<and>
   \<not> before_is_current (security_blueprint (sv_modules (mapRowToSpec sample_row))) stale_diff \<and>
   patchSpec env_stale patch_input world0 =
     (Inr (patched_result stale_diff), world1 env_stale stale_diff) \<and>
   res_diffs (patched_result stale_diff) = [stale_diff] \<and>
   map before_value (spec_diffs (world1 env_stale stale_diff)) = [''DES'']"
  using stale_before run_stale
  by (simp add: before_is_current_def sample_row_modules sample_modules_def stale_diff_def
      patched_result_def world1_def diff_row_of_def)

text \<open>
  Claim C2, amended. No diff is rejected for its \<^verbatim>\<open>before\<close> value. When \<^verbatim>\<open>patchSpec\<close>
  succeeds, the diffs it returns are exactly the diffs the generator proposed for the
  affected module keys that have a payload in the loaded version, each stamped with its
  module and the regulation, whatever their \<^verbatim>\<open>before\<close>; and when that list is not empty,
  all of it is handed to \<open>applyDiffsToSpec\<close> and written to the audit table.
\<close>

theorem patchSpec_takes_every_proposed_diff:
  assumes "patchSpec env input w = (Inr res, w')"
    and "select_single (spec_versions w) (specVersionId input) = Some loaded"
  shows "res_diffs res =
           concat (map (proposed_diffs (propose env) (in_regulation input)
                          (sv_modules (mapRowToSpec loaded))) (affectedModules res)) \<and>
         (\<forall>key \<in> set (affectedModules res). \<forall>moduleData proposed. \<forall>d \<in> set proposed.
            module_at (sv_modules (mapRowToSpec loaded)) key = Some moduleData \<and>
            js_truthy moduleData \<and>
            propose env (in_regulation input) key moduleData = Parsed proposed \<longrightarrow>
            stamp key (in_regulation input) d \<in> set (res_diffs res)) \<and>
         (res_diffs res \<noteq> [] \<longrightarrow>
            (\<exists>updatedModules.
               applyDiffsToSpec (rewrite_module env) (mapRowToSpec loaded) (res_diffs res) =
                 Inr updatedModules) \<and>
            spec_diffs w' =
              spec_diffs w @
              map (diff_row_of (specVersionId input) (newVersionId res)) (res_diffs res))"
proof -
  let ?ms = "sv_modules (mapRowToSpec loaded)"
  let ?gen = "propose env"
  let ?reg = "in_regulation input"
  have both: "res_diffs res = concat (map (proposed_diffs ?gen ?reg ?ms) (affectedModules res)) \<and>
      (res_diffs res \<noteq> [] \<longrightarrow>
            (\<exists>updatedModules.
               applyDiffsToSpec (rewrite_module env) (mapRowToSpec loaded) (res_diffs res) =
                 Inr updatedModules) \<and>
            spec_diffs w' =
              spec_diffs w @
              map (diff_row_of (specVersionId input) (newVersionId res)) (res_diffs res))"
  proof -
    from patchSpec_outcomes [OF assms(1)] assms(2)
    consider
      (early) ms where "res = unpatched_result env input (mapRowToSpec loaded) ms" "w' = w"
    | (late) ms allDiffs updatedModules versions where
        "reaches_insert env input w loaded ms allDiffs updatedModules"
        "record_patch env input (mapRowToSpec loaded) ms allDiffs
           (new_version_row input (mapRowToSpec loaded) (uuidv4 env 0) updatedModules allDiffs)
           (w\<lparr>spec_versions := versions\<rparr>) = (Inr res, w')"
      by (auto simp: reaches_insert_def)
    then show ?thesis
    proof cases
      case early
      from assms early have "patchSpec env input w =
          (Inr (unpatched_result env input (mapRowToSpec loaded) ms), w)" by simp
      with assms(2) have "ms = [] \<or> collect_diffs ?gen ?reg ?ms ms [] = Inr []"
        by (auto simp: patchSpec_def Let_def record_patch_def unpatched_result_def
            split: sum.splits if_splits)
      then have "concat (map (proposed_diffs ?gen ?reg ?ms) ms) = []"
        by (auto dest: collect_diffs_Inr)
      with early show ?thesis by (simp add: unpatched_result_def)
    next
      case late
      from late(1) have col: "collect_diffs ?gen ?reg ?ms ms [] = Inr allDiffs"
        and app: "applyDiffsToSpec (rewrite_module env) (mapRowToSpec loaded) allDiffs =
            Inr updatedModules"
        by (simp_all add: reaches_insert_def)
      from record_patch_result [OF late(2)] record_patch_spec_diffs [OF late(2)]
        collect_diffs_Inr [OF col] app
      show ?thesis by auto
    qed
  qed
  then have eq: "res_diffs res = concat (map (proposed_diffs ?gen ?reg ?ms) (affectedModules res))"
    by blast
  have "\<forall>key \<in> set (affectedModules res). \<forall>moduleData proposed. \<forall>d \<in> set proposed.
            module_at ?ms key = Some moduleData \<and> js_truthy moduleData \<and>
            ?gen ?reg key moduleData = Parsed proposed \<longrightarrow>
            stamp key ?reg d \<in> set (res_diffs res)"
  proof (intro ballI allI impI)
    fix key moduleData proposed d
    assume key: "key \<in> set (affectedModules res)" and d: "d \<in> set proposed"
      and "module_at ?ms key = Some moduleData \<and> js_truthy moduleData \<and>
            ?gen ?reg key moduleData = Parsed proposed"
    then have "proposed_diffs ?gen ?reg ?ms key = map (stamp key ?reg) proposed"
      by (simp add: proposed_diffs_def)
    with d have "stamp key ?reg d \<in> set (proposed_diffs ?gen ?reg ?ms key)" by simp
    with key show "stamp key ?reg d \<in> set (res_diffs res)"
      unfolding eq by auto
  qed
  with both show ?thesis by blast
qed

theorem patchSpec_takes_every_proposed_diff_witness:
  "patchSpec env_patch patch_input world0 =
     (Inr (patched_result aes_diff), world1 env_patch aes_diff) \<and>
   select_single (spec_versions world0) (specVersionId patch_input) = Some sample_row \<and>
   res_diffs (patched_result aes_diff) =
     concat (map (proposed_diffs (propose env_patch) (in_regulation patch_input)
                    (sv_modules (mapRowToSpec sample_row)))
               (affectedModules (patched_result aes_diff))) \<and>
   ''security_blueprint'' \<in> set (affectedModules (patched_result aes_diff)) \<and>
   module_at (sv_modules (mapRowToSpec sample_row)) ''security_blueprint'' = Some security_payload \<and>
   js_truthy security_payload \<and>
   propose env_patch (in_regulation patch_input) ''security_blueprint'' security_payload =
     Parsed [aes_diff] \<and>
   stamp ''security_blueprint'' (in_regulation patch_input) aes_diff
     \<in> set (res_diffs (patched_result aes_diff)) \<and>
   res_diffs (patched_result aes_diff) \<noteq> [] \<and>
   (\<exists>updatedModules.
      applyDiffsToSpec (rewrite_module env_patch) (mapRowToSpec sample_row)
        (res_diffs (patched_result aes_diff)) = Inr updatedModules) \<and>
   spec_diffs (world1 env_patch aes_diff) =
     spec_diffs world0 @
     map (diff_row_of (specVersionId patch_input) (newVersionId (patched_result aes_diff)))
       (res_diffs (patched_result aes_diff))"
proof -
  have nonempty: "res_diffs (patched_result aes_diff) \<noteq> []"
    by (simp add: patched_result_def)
  have key: "''security_blueprint'' \<in> set (affectedModules (patched_result aes_diff))"
    by (simp add: patched_result_def)
  have payload: "module_at (sv_modules (mapRowToSpec sample_row)) ''security_blueprint'' =
      Some security_payload"
    by (simp add: sample_row_modules sample_modules_def module_at_def)
  have truthy: "js_truthy security_payload"
    by (simp add: security_payload_def)
  have proposed: "propose env_patch (in_regulation patch_input) ''security_blueprint''
      security_payload = Parsed [aes_diff]"
    by (simp add: env_patch_def)
  have d: "aes_diff \<in> set [aes_diff]" by simp
  note inst = patchSpec_takes_every_proposed_diff [OF run_patch select_sample_row]
  from inst key payload truthy proposed d
  have taken: "stamp ''security_blueprint'' (in_regulation patch_input) aes_diff
      \<in> set (res_diffs (patched_result aes_diff))"
    by blast
  from inst nonempty run_patch select_sample_row key payload truthy proposed taken
  show ?thesis by blast
qed

section \<open>The single active version of a lineage\<close>

lemma filter_id_distinct:
  "distinct (map row_id rows) \<Longrightarrow> r \<in> set rows \<Longrightarrow>
   filter (\<lambda>x. row_id x = row_id r) rows = [r]"
proof (induction rows)
  case Nil
  then show ?case by simp
next
  case (Cons x rows)
  show ?case
  proof (cases "x = r")
    case True
    from Cons.prems(1) have "\<forall>y \<in> set rows. row_id y \<noteq> row_id x"
      by (auto simp: image_iff)
    then have "filter (\<lambda>y. row_id y = row_id x) rows = []"
      by (auto simp: filter_empty_conv)
    with True show ?thesis by simp
  next
    case False
    with Cons.prems have mem: "r \<in> set rows" and d: "distinct (map row_id rows)" by auto
    from Cons.prems(1) mem have "row_id x \<noteq> row_id r" by auto
    with Cons.IH [OF d mem] show ?thesis by simp
  qed
qed

lemma select_single_distinct:
  "distinct (map row_id rows) \<Longrightarrow>
   select_single rows i = Some r \<longleftrightarrow> r \<in> set rows \<and> row_id r = i"
  using filter_id_distinct [of rows r] select_single_Some [of rows i r]
  by (auto simp: select_single_def)

lemma row_id_supersede: "row_id (supersede p r) = row_id r"
  by (simp add: supersede_def)

lemma parent_id_supersede: "parent_id (supersede p r) = parent_id r"
  by (simp add: supersede_def)

lemma ids_after_create:
  "map row_id (map (supersede p) rows @ [child]) = map row_id rows @ [row_id child]"
  by (induction rows) (simp_all add: row_id_supersede)

lemma distinct_after_create:
  "distinct (map row_id rows) \<Longrightarrow> row_id child \<notin> set (map row_id rows) \<Longrightarrow>
   distinct (map row_id (map (supersede p) rows @ [child]))"
  unfolding ids_after_create by simp

text \<open>The table after an active child of the stored version \<open>p\<close> has been created.\<close>

lemma select_after_create_old:
  assumes "distinct (map row_id rows)" "row_id child \<notin> set (map row_id rows)"
    and "select_single rows i = Some r"
  shows "select_single (map (supersede p) rows @ [child]) i = Some (supersede p r)"
proof -
  have d: "distinct (map row_id (map (supersede p) rows @ [child]))"
    using assms(1,2) by (rule distinct_after_create)
  from assms(1,3) have "r \<in> set rows" "row_id r = i"
    by (simp_all add: select_single_distinct)
  then have "supersede p r \<in> set (map (supersede p) rows @ [child])"
    "row_id (supersede p r) = i"
    by (simp_all add: row_id_supersede)
  with d show ?thesis by (simp only: select_single_distinct)
qed

lemma select_after_create_new:
  assumes "distinct (map row_id rows)" "row_id child \<notin> set (map row_id rows)"
  shows "select_single (map (supersede p) rows @ [child]) (row_id child) = Some child"
proof -
  have d: "distinct (map row_id (map (supersede p) rows @ [child]))"
    using assms by (rule distinct_after_create)
  have "child \<in> set (map (supersede p) rows @ [child])" by simp
  with d show ?thesis by (simp only: select_single_distinct)
qed

lemma root_of_after_create:
  assumes "distinct (map row_id rows)" "row_id child \<notin> set (map row_id rows)"
  shows "root_of fuel rows i = Some first \<Longrightarrow>
         root_of fuel (map (supersede p) rows @ [child]) i = Some first"
proof (induction fuel arbitrary: i)
  case 0
  then show ?case by simp
next
  case (Suc fuel)
  from Suc.prems obtain r where r: "select_single rows i = Some r"
    by (auto split: option.splits)
  note new = select_after_create_old [OF assms r, of p]
  show ?case
  proof (cases "parent_id r")
    case None
    with Suc.prems r new show ?thesis by (simp add: parent_id_supersede)
  next
    case (Some q)
    with Suc.prems r have "root_of fuel rows q = Some first" by simp
    from Suc.IH [OF this] Some new show ?thesis by (simp add: parent_id_supersede)
  qed
qed

lemma root_of_more_fuel:
  "root_of fuel rows i = Some first \<Longrightarrow> root_of (Suc fuel) rows i = Some first"
proof (induction fuel arbitrary: i)
  case 0
  then show ?case by simp
next
  case (Suc fuel)
  from Suc.prems obtain r where r: "select_single rows i = Some r"
    by (auto split: option.splits)
  show ?case
  proof (cases "parent_id r")
    case None
    with Suc.prems r show ?thesis by simp
  next
    case (Some q)
    with Suc.prems r have "root_of fuel rows q = Some first" by simp
    from Suc.IH [OF this] Some r show ?thesis by simp
  qed
qed

lemma lineage_root_old:
  assumes "distinct (map row_id rows)" "row_id child \<notin> set (map row_id rows)"
    and "lineage_root rows i = Some first"
  shows "lineage_root (map (supersede p) rows @ [child]) i = Some first"
proof -
  from assms(3) have "root_of (length rows) rows i = Some first"
    by (simp add: lineage_root_def)
  then have "root_of (length rows) (map (supersede p) rows @ [child]) i = Some first"
    by (rule root_of_after_create [OF assms(1,2)])
  then have "root_of (Suc (length rows)) (map (supersede p) rows @ [child]) i = Some first"
    by (rule root_of_more_fuel)
  then show ?thesis by (simp add: lineage_root_def)
qed

lemma lineage_root_new:
  assumes "distinct (map row_id rows)" "row_id child \<notin> set (map row_id rows)"
    and "parent_id child = Some p" and "lineage_root rows p = Some first"
  shows "lineage_root (map (supersede p) rows @ [child]) (row_id child) = Some first"
proof -
  from assms(4) have "root_of (length rows) rows p = Some first"
    by (simp add: lineage_root_def)
  then have "root_of (length rows) (map (supersede p) rows @ [child]) p = Some first"
    by (rule root_of_after_create [OF assms(1,2)])
  with select_after_create_new [OF assms(1,2), of p] assms(3) show ?thesis
    by (simp add: lineage_root_def)
qed

lemma create_child_invariants:
  assumes wf: "well_formed rows" and one: "single_active rows"
    and fresh: "row_id child \<notin> set (map row_id rows)"
    and parent: "select_single rows p = Some parent" "status parent = Active"
    and child: "parent_id child = Some p" "status child = Active"
  shows "well_formed (map (supersede p) rows @ [child]) \<and>
         single_active (map (supersede p) rows @ [child])"
proof -
  let ?rows' = "map (supersede p) rows @ [child]"
  from wf have d: "distinct (map row_id rows)"
    and rooted: "\<And>r. r \<in> set rows \<Longrightarrow> lineage_root rows (row_id r) \<noteq> None"
    by (simp_all add: well_formed_def)
  from parent(1) d have pmem: "parent \<in> set rows" and pid: "row_id parent = p"
    by (simp_all add: select_single_distinct)
  from rooted [OF pmem] pid obtain first where proot: "lineage_root rows p = Some first" by auto
  have old: "\<And>r. r \<in> set rows \<Longrightarrow>
      lineage_root ?rows' (row_id r) = lineage_root rows (row_id r)"
  proof -
    fix r assume "r \<in> set rows"
    from rooted [OF this] obtain x where x: "lineage_root rows (row_id r) = Some x" by auto
    from lineage_root_old [OF d fresh x] x
    show "lineage_root ?rows' (row_id r) = lineage_root rows (row_id r)" by simp
  qed
  have new: "lineage_root ?rows' (row_id child) = lineage_root rows p"
    using lineage_root_new [OF d fresh child(1) proot] proot by simp
  have wf': "well_formed ?rows'"
    unfolding well_formed_def
  proof (intro conjI ballI)
    show "distinct (map row_id ?rows')" using d fresh by (rule distinct_after_create)
  next
    fix r assume "r \<in> set ?rows'"
    then consider x where "x \<in> set rows" "r = supersede p x" | "r = child" by auto
    then show "lineage_root ?rows' (row_id r) \<noteq> None"
    proof cases
      case 1
      with old [OF 1(1)] rooted [OF 1(1)] show ?thesis by (simp add: row_id_supersede)
    next
      case 2
      with new proot show ?thesis by simp
    qed
  qed
  have active_old: "\<And>x. x \<in> set rows \<Longrightarrow> status (supersede p x) = Active \<Longrightarrow>
      supersede p x = x \<and> status x = Active \<and> x \<noteq> parent"
    using pid by (auto simp: supersede_def split: if_splits)
  have one': "single_active ?rows'"
    unfolding single_active_def
  proof (intro ballI impI)
    fix a b
    assume a: "a \<in> set ?rows'" and b: "b \<in> set ?rows'"
      and ab: "status a = Active \<and> status b = Active \<and>
        lineage_root ?rows' (row_id a) = lineage_root ?rows' (row_id b)"
    from a consider x where "x \<in> set rows" "a = supersede p x" | "a = child" by auto
    then show "a = b"
    proof cases
      case 1
      with ab active_old [OF 1(1)] have ax: "a = x" "status x = Active" "x \<noteq> parent" by simp_all
      from b consider y where "y \<in> set rows" "b = supersede p y" | "b = child" by auto
      then show ?thesis
      proof cases
        case (1 y)
        with ab active_old [OF 1(1)] have "b = y" "status y = Active" by simp_all
        moreover from ab ax \<open>b = y\<close> old \<open>x \<in> set rows\<close> \<open>y \<in> set rows\<close>
        have "lineage_root rows (row_id x) = lineage_root rows (row_id y)" by simp
        ultimately show ?thesis
          using one ax \<open>x \<in> set rows\<close> \<open>y \<in> set rows\<close> by (auto simp: single_active_def)
      next
        case 2
        with ab ax old [OF \<open>x \<in> set rows\<close>] new pid
        have "lineage_root rows (row_id x) = lineage_root rows (row_id parent)" by simp
        with one ax \<open>x \<in> set rows\<close> pmem parent(2) have "x = parent"
          by (auto simp: single_active_def)
        with ax show ?thesis by simp
      qed
    next
      case 2
      note a_child = this
      from b consider y where "y \<in> set rows" "b = supersede p y" | "b = child" by auto
      then show ?thesis
      proof cases
        case (1 y)
        with ab active_old [OF 1(1)] have b_old: "b = y" "status y = Active" "y \<noteq> parent" by simp_all
        with ab a_child old [OF \<open>y \<in> set rows\<close>] new pid
        have "lineage_root rows (row_id y) = lineage_root rows (row_id parent)" by simp
        with one b_old \<open>y \<in> set rows\<close> pmem parent(2) have "y = parent"
          by (auto simp: single_active_def)
        with b_old show ?thesis by simp
      next
        case 2
        with a_child show ?thesis by simp
      qed
    qed
  qed
  from wf' one' show ?thesis by simp
qed

lemma create_version_active_child:
  assumes "create_version rows row = Inr versions" "status row = Active" "parent_id row = Some p"
  shows "\<exists>parent. select_single rows p = Some parent \<and> status parent = Active \<and>
           row_id row \<notin> set (map row_id rows) \<and> versions = map (supersede p) rows @ [row]"
  using assms by (auto simp: create_version_def split: if_splits option.splits)

lemma supersede_parent:
  "row_id parent = p \<Longrightarrow> supersede p parent = parent\<lparr>status := Superseded\<rparr>"
  by (simp add: supersede_def)

text \<open>
  Claim C1. In a well-formed version table in which every lineage has at most one active
  version, every run of \<^verbatim>\<open>patchSpec\<close>, whatever its outcome, leaves a well-formed table in
  which every lineage has at most one active version. When the run creates a version,
  the table changes in one step: the loaded version, which was active, is superseded, and
  the child, active and with the loaded version as its parent, is added. A run that
  succeeds with a non-empty diff list has created a version.
\<close>

theorem patchSpec_single_active:
  assumes "well_formed (spec_versions w)" and "single_active (spec_versions w)"
    and "patchSpec env input w = (out, w')"
  shows "well_formed (spec_versions w') \<and> single_active (spec_versions w') \<and>
         (spec_versions w' \<noteq> spec_versions w \<longrightarrow>
            (\<exists>parent child.
               select_single (spec_versions w) (specVersionId input) = Some parent \<and>
               status parent = Active \<and> status child = Active \<and>
               parent_id child = Some (specVersionId input) \<and>
               spec_versions w' =
                 map (supersede (specVersionId input)) (spec_versions w) @ [child] \<and>
               select_single (spec_versions w') (specVersionId input) =
                 Some (parent\<lparr>status := Superseded\<rparr>) \<and>
               select_single (spec_versions w') (row_id child) = Some child)) \<and>
         (\<forall>res. out = Inr res \<and> res_diffs res \<noteq> [] \<longrightarrow> spec_versions w' \<noteq> spec_versions w)"
proof -
  let ?rows = "spec_versions w"
  let ?p = "specVersionId input"
  from patchSpec_outcomes [OF assms(3)]
  consider (same) "w' = w" "\<forall>res. out = Inr res \<longrightarrow> res_diffs res = []"
    | (created) specRow ms allDiffs updatedModules versions where
        "reaches_insert env input w specRow ms allDiffs updatedModules"
        "create_version ?rows
           (new_version_row input (mapRowToSpec specRow) (uuidv4 env 0) updatedModules allDiffs) =
           Inr versions"
        "record_patch env input (mapRowToSpec specRow) ms allDiffs
           (new_version_row input (mapRowToSpec specRow) (uuidv4 env 0) updatedModules allDiffs)
           (w\<lparr>spec_versions := versions\<rparr>) = (out, w')"
    by (auto simp: unpatched_result_def)
  then show ?thesis
  proof cases
    case same
    with assms(1,2) show ?thesis by auto
  next
    case created
    define child where
      "child = new_version_row input (mapRowToSpec specRow) (uuidv4 env 0) updatedModules allDiffs"
    have child: "status child = Active" "parent_id child = Some ?p"
      by (simp_all add: child_def new_version_row_def)
    from create_version_active_child [OF created(2) [folded child_def] child]
    obtain parent where parent: "select_single ?rows ?p = Some parent" "status parent = Active"
      and fresh: "row_id child \<notin> set (map row_id ?rows)"
      and versions: "versions = map (supersede ?p) ?rows @ [child]"
      by blast
    from record_patch_versions [OF created(3)] versions
    have rows': "spec_versions w' = map (supersede ?p) ?rows @ [child]" by simp
    from create_child_invariants [OF assms(1,2) fresh parent child(2) child(1)]
    have inv: "well_formed (spec_versions w')" "single_active (spec_versions w')"
      by (simp_all add: rows')
    from assms(1) have d: "distinct (map row_id ?rows)" by (simp add: well_formed_def)
    from select_single_Some [OF parent(1)] have pid: "row_id parent = ?p" by simp
    have sel_parent: "select_single (spec_versions w') ?p = Some (parent\<lparr>status := Superseded\<rparr>)"
      using select_after_create_old [OF d fresh parent(1), of ?p] supersede_parent [OF pid]
      by (simp add: rows')
    have sel_child: "select_single (spec_versions w') (row_id child) = Some child"
      using select_after_create_new [OF d fresh, of ?p] by (simp add: rows')
    have changed: "spec_versions w' \<noteq> ?rows"
    proof
      assume "spec_versions w' = ?rows"
      then have "length (spec_versions w') = length ?rows" by simp
      with rows' show False by simp
    qed
    from inv parent child rows' sel_parent sel_child changed show ?thesis by blast
  qed
qed

lemma world0_invariants:
  "well_formed (spec_versions world0) \<and> single_active (spec_versions world0)"
  by (simp add: well_formed_def single_active_def lineage_root_def world0_def select_single_def
      sample_row_def)

theorem patchSpec_single_active_witness:
  "well_formed (spec_versions world0) \<and> single_active (spec_versions world0) \<and>
   patchSpec env_patch patch_input world0 =
     (Inr (patched_result aes_diff), world1 env_patch aes_diff) \<and>
   res_diffs (patched_result aes_diff) \<noteq> [] \<and>
   spec_versions (world1 env_patch aes_diff) \<noteq> spec_versions world0 \<and>
   spec_versions (world1 env_patch aes_diff) = [sample_row\<lparr>status := Superseded\<rparr>, sample_child] \<and>
   status sample_row = Active \<and> status sample_child = Active \<and>
   parent_id sample_child = Some (row_id sample_row) \<and>
   well_formed (spec_versions (world1 env_patch aes_diff)) \<and>
   single_active (spec_versions (world1 env_patch aes_diff))"
proof -
  from world0_invariants have wf: "well_formed (spec_versions world0)"
    and one: "single_active (spec_versions world0)" by simp_all
  have rows: "spec_versions (world1 env_patch aes_diff) =
      [sample_row\<lparr>status := Superseded\<rparr>, sample_child]"
    "status sample_row = Active" "status sample_child = Active"
    "parent_id sample_child = Some (row_id sample_row)"
    by (simp_all add: world1_def sample_row_def sample_child_def)
  have nonempty: "res_diffs (patched_result aes_diff) \<noteq> []"
    by (simp add: patched_result_def)
  note inst = patchSpec_single_active [OF wf one run_patch]
  from inst nonempty
  have changed: "spec_versions (world1 env_patch aes_diff) \<noteq> spec_versions world0"
    by blast
  from inst wf one run_patch rows nonempty changed show ?thesis by blast
qed

end
